theory Spec2Isabelle
  imports Main
begin

section \<open>Values of the language\<close>

text \<open>
  The client is one JavaScript file, \<^verbatim>\<open>web/app.js\<close>. A string is a \<^typ>\<open>string\<close>: the
  bytes of its UTF-8 text. The patterns of the program count ASCII characters only, for
  which a byte and a UTF-16 code unit are the same thing.

  A value is what \<^verbatim>\<open>JSON.parse\<close> can deliver, or \<^verbatim>\<open>undefined\<close>. Numbers are the
  integers; the program only tests a number for being zero and writes it as text.
\<close>

datatype jsval =
    Undefined
  | Null
  | Bool bool
  | Number int
  | Str string
  | Array "jsval list"
  | Object "(string \<times> jsval) list"

text \<open>An exception carries its message. A \<^verbatim>\<open>TypeError\<close> is raised by the engine.\<close>

datatype js_error = TypeError string | Error string

fun message :: "js_error \<Rightarrow> string" where
  "message (TypeError m) = m"
| "message (Error m) = m"

text \<open>A call either returns or throws.\<close>

datatype 'a completion = Return 'a | Throw js_error

text \<open>\<^verbatim>\<open>Boolean(x)\<close>, the test of \<^verbatim>\<open>if (x)\<close>, \<^verbatim>\<open>!x\<close> and \<^verbatim>\<open>x || y\<close>.\<close>

fun truthy :: "jsval \<Rightarrow> bool" where
  "truthy Undefined = False"
| "truthy Null = False"
| "truthy (Bool b) = b"
| "truthy (Number n) = (n \<noteq> 0)"
| "truthy (Str s) = (s \<noteq> [])"
| "truthy (Array xs) = True"
| "truthy (Object ps) = True"

definition or_else :: "jsval \<Rightarrow> jsval \<Rightarrow> jsval" where
  \<comment> \<open>\<^verbatim>\<open>a || b\<close>\<close>
  "or_else a b = (if truthy a then a else b)"

text \<open>The decimal text of a number, as a template literal or a string conversion writes it.\<close>

fun digits :: "nat \<Rightarrow> string" where
  "digits n =
     (if n < 10 then [''0123456789'' ! n]
      else digits (n div 10) @ [''0123456789'' ! (n mod 10)])"

declare digits.simps [simp del]

fun join :: "string \<Rightarrow> string list \<Rightarrow> string" where
  "join sep [] = []"
| "join sep [x] = x"
| "join sep (x # y # ys) = x @ sep @ join sep (y # ys)"

text \<open>
  \<^verbatim>\<open>String(x)\<close>, the conversion behind a template literal, \<^verbatim>\<open>new Error(x)\<close>, an assignment
  to \<^verbatim>\<open>textContent\<close> or \<^verbatim>\<open>href\<close>, and \<^verbatim>\<open>searchParams.set\<close>. An array joins its
  elements with commas, \<^verbatim>\<open>null\<close> and \<^verbatim>\<open>undefined\<close> among them as the empty string.
\<close>

fun ToString :: "jsval \<Rightarrow> string" where
  "ToString Undefined = ''undefined''"
| "ToString Null = ''null''"
| "ToString (Bool b) = (if b then ''true'' else ''false'')"
| "ToString (Number n) = (if n < 0 then CHR ''-'' # digits (nat (- n)) else digits (nat n))"
| "ToString (Str s) = s"
| "ToString (Array xs) =
     join '','' (map (\<lambda>x. if x = Undefined \<or> x = Null then [] else ToString x) xs)"
| "ToString (Object ps) = ''[object Object]''"

text \<open>
  The values whose conversion \<open>ToString\<close> writes exactly. A number beyond the safe
  integers (2 to the power 53) is written by JavaScript from its shortest digits, in
  exponent form from 10 to the power 21 on; an object with a property \<^verbatim>\<open>toString\<close> of
  its own has no conversion (a parsed value is not callable), and converting it throws.
  Of these values \<open>ToString\<close> says nothing.
\<close>

fun exact_text :: "jsval \<Rightarrow> bool" where
  "exact_text (Number n) = (\<bar>n\<bar> \<le> 2 ^ 53)"
| "exact_text (Array xs) = list_all exact_text xs"
| "exact_text (Object ps) = (''toString'' \<notin> fst ` set ps)"
| "exact_text v = True"

text \<open>
  \<^verbatim>\<open>v?.k\<close> for the property names the program reads (none of them an index or
  \<^verbatim>\<open>length\<close>): the property of an object, \<^verbatim>\<open>undefined\<close> on every other value. A plain
  \<^verbatim>\<open>v.k\<close> throws on \<^verbatim>\<open>null\<close> and \<^verbatim>\<open>undefined\<close>; its callers below test for them
  first. Of these names only \<^verbatim>\<open>link\<close> is inherited by a primitive, by a string: where
  the program reads it, of a feed item, \<open>item_link\<close> below does so.
\<close>

fun get :: "jsval \<Rightarrow> string \<Rightarrow> jsval" where
  "get (Object ps) k = (case map_of ps k of None \<Rightarrow> Undefined | Some x \<Rightarrow> x)"
| "get v k = Undefined"


section \<open>Strings\<close>

definition startsWith :: "string \<Rightarrow> string \<Rightarrow> bool" where
  "startsWith s p \<longleftrightarrow> take (length p) s = p"

definition endsWith :: "string \<Rightarrow> string \<Rightarrow> bool" where
  "endsWith s p \<longleftrightarrow> length p \<le> length s \<and> drop (length s - length p) s = p"

text \<open>
  \<^verbatim>\<open>String.prototype.trim\<close> removes white space and line terminators from both ends:
  U+0009 to U+000D, U+0020, U+00A0, U+1680, U+2000 to U+200A, U+2028, U+2029, U+202F,
  U+205F, U+3000 and U+FEFF, here in UTF-8.
\<close>

definition white_space :: "string list" where
  "white_space =
    [[CHR 0x09], [CHR 0x0A], [CHR 0x0B], [CHR 0x0C], [CHR 0x0D], [CHR 0x20],
     [CHR 0xC2, CHR 0xA0],
     [CHR 0xE1, CHR 0x9A, CHR 0x80],
     [CHR 0xE2, CHR 0x80, CHR 0x80], [CHR 0xE2, CHR 0x80, CHR 0x81],
     [CHR 0xE2, CHR 0x80, CHR 0x82], [CHR 0xE2, CHR 0x80, CHR 0x83],
     [CHR 0xE2, CHR 0x80, CHR 0x84], [CHR 0xE2, CHR 0x80, CHR 0x85],
     [CHR 0xE2, CHR 0x80, CHR 0x86], [CHR 0xE2, CHR 0x80, CHR 0x87],
     [CHR 0xE2, CHR 0x80, CHR 0x88], [CHR 0xE2, CHR 0x80, CHR 0x89],
     [CHR 0xE2, CHR 0x80, CHR 0x8A],
     [CHR 0xE2, CHR 0x80, CHR 0xA8], [CHR 0xE2, CHR 0x80, CHR 0xA9],
     [CHR 0xE2, CHR 0x80, CHR 0xAF],
     [CHR 0xE2, CHR 0x81, CHR 0x9F],
     [CHR 0xE3, CHR 0x80, CHR 0x80],
     [CHR 0xEF, CHR 0xBB, CHR 0xBF]]"

definition leading_space :: "string \<Rightarrow> nat" where
  \<comment> \<open>the length of the white space character a string starts with, 0 when it starts with none\<close>
  "leading_space s =
     (case find (startsWith s) white_space of None \<Rightarrow> 0 | Some w \<Rightarrow> length w)"

definition trailing_space :: "string \<Rightarrow> nat" where
  \<comment> \<open>the same at the end\<close>
  "trailing_space s =
     (case find (endsWith s) white_space of None \<Rightarrow> 0 | Some w \<Rightarrow> length w)"

function trimStart :: "string \<Rightarrow> string" where
  "trimStart s = (if leading_space s = 0 then s else trimStart (drop (leading_space s) s))"
  by pat_completeness auto
termination
proof (relation "measure length")
  fix s :: string
  assume some: "leading_space s \<noteq> 0"
  then obtain w where found: "find (startsWith s) white_space = Some w" and w: "w \<noteq> []"
    by (auto simp: leading_space_def split: option.splits)
  from found have "startsWith s w" by (auto simp: find_Some_iff)
  with w have "s \<noteq> []" by (auto simp: startsWith_def)
  with some show "(drop (leading_space s) s, s) \<in> measure length" by simp
qed simp

function trimEnd :: "string \<Rightarrow> string" where
  "trimEnd s =
     (if trailing_space s = 0 then s else trimEnd (take (length s - trailing_space s) s))"
  by pat_completeness auto
termination
proof (relation "measure length")
  fix s :: string
  assume some: "trailing_space s \<noteq> 0"
  then obtain w where found: "find (endsWith s) white_space = Some w" and w: "w \<noteq> []"
    by (auto simp: trailing_space_def split: option.splits)
  from found have "endsWith s w" by (auto simp: find_Some_iff)
  with w have "s \<noteq> []" by (auto simp: endsWith_def)
  with some show "(take (length s - trailing_space s) s, s) \<in> measure length" by simp
qed simp

declare trimStart.simps [simp del] trimEnd.simps [simp del]

definition trim :: "string \<Rightarrow> string" where
  "trim s = trimEnd (trimStart s)"

text \<open>\<^verbatim>\<open>s.split(sep)\<close> with a separator of one character.\<close>

fun split :: "char \<Rightarrow> string \<Rightarrow> string list" where
  "split sep [] = [[]]"
| "split sep (c # cs) =
     (if c = sep then [] # split sep cs
      else (case split sep cs of [] \<Rightarrow> [[c]] | x # xs \<Rightarrow> (c # x) # xs))"

text \<open>\<^verbatim>\<open>xs[i]\<close> is \<^verbatim>\<open>undefined\<close> out of range, here \<open>None\<close>.\<close>

definition at :: "'a list \<Rightarrow> nat \<Rightarrow> 'a option" where
  "at xs i = (if i < length xs then Some (xs ! i) else None)"

definition or_empty :: "string option \<Rightarrow> string" where
  \<comment> \<open>\<^verbatim>\<open>x || ""\<close> for a string, \<^verbatim>\<open>null\<close> or \<^verbatim>\<open>undefined\<close>\<close>
  "or_empty x = (case x of None \<Rightarrow> [] | Some s \<Rightarrow> s)"

section \<open>The platform\<close>

text \<open>
  What the browser provides is a parameter of the model. A parsed URL has the fields the
  program reads; \<^verbatim>\<open>new URL(s)\<close> throws a \<^verbatim>\<open>TypeError\<close> where \<open>new_URL\<close> is \<open>None\<close>.
\<close>

record url =
  hostname :: string
  pathname :: string
  searchParams :: "(string \<times> string) list"

record response =
  status :: nat
  body :: string

definition ok :: "response \<Rightarrow> bool" where
  \<comment> \<open>\<^verbatim>\<open>res.ok\<close>: the status is in the range 200 to 299\<close>
  "ok res \<longleftrightarrow> 200 \<le> status res \<and> status res \<le> 299"

record platform =
  new_URL :: "string \<Rightarrow> url option"
  JSON_parse :: "string \<Rightarrow> jsval option"
    \<comment> \<open>\<open>None\<close> where \<^verbatim>\<open>JSON.parse\<close> throws\<close>
  encodeURIComponent :: "string \<Rightarrow> string"
  medium_date :: "jsval \<Rightarrow> string option"
    \<comment> \<open>\<^verbatim>\<open>new Date(x).toLocaleString(undefined, {dateStyle: "medium"})\<close>, \<open>None\<close> for an invalid date\<close>
  href_with :: "string \<Rightarrow> (string \<times> string) list \<Rightarrow> string"
    \<comment> \<open>the text of the URL of an address after \<^verbatim>\<open>searchParams.set\<close> of each pair in turn\<close>
  page_href :: "(string \<times> string) list \<Rightarrow> string"
    \<comment> \<open>the text of the page's own address with the given search parameters\<close>
  not_a_function :: string
    \<comment> \<open>the message of the \<^verbatim>\<open>TypeError\<close> for a call of a method the value does not have\<close>
  null_property :: string
    \<comment> \<open>the message of the \<^verbatim>\<open>TypeError\<close> for reading a property of \<^verbatim>\<open>null\<close> or \<^verbatim>\<open>undefined\<close>\<close>
  String_link :: string
    \<comment> \<open>the text of the function \<^verbatim>\<open>String.prototype.link\<close>\<close>

definition searchParams_get :: "(string \<times> string) list \<Rightarrow> string \<Rightarrow> string option" where
  \<comment> \<open>\<^verbatim>\<open>URLSearchParams.get\<close>: the first value of the name, or \<^verbatim>\<open>null\<close>\<close>
  "searchParams_get ps k = map_of ps k"

definition searchParams_delete :: "(string \<times> string) list \<Rightarrow> string \<Rightarrow> (string \<times> string) list" where
  \<comment> \<open>\<^verbatim>\<open>URLSearchParams.delete\<close>: every pair of the name goes\<close>
  "searchParams_delete ps k = filter (\<lambda>p. fst p \<noteq> k) ps"

fun searchParams_set :: "(string \<times> string) list \<Rightarrow> string \<Rightarrow> string \<Rightarrow> (string \<times> string) list" where
  \<comment> \<open>\<^verbatim>\<open>URLSearchParams.set\<close>: the first pair of the name takes the value and the others go;
      a new name is appended\<close>
  "searchParams_set [] k v = [(k, v)]"
| "searchParams_set (p # ps) k v =
     (if fst p = k then (k, v) # searchParams_delete ps k else p # searchParams_set ps k v)"

section \<open>Identifier extractors\<close>

definition id_char :: "char \<Rightarrow> bool" where
  \<comment> \<open>the class \<^verbatim>\<open>[a-zA-Z0-9_-]\<close>\<close>
  "id_char c \<longleftrightarrow>
     c \<in> set (''abcdefghijklmnopqrstuvwxyz'' @ ''ABCDEFGHIJKLMNOPQRSTUVWXYZ'' @ ''0123456789_-'')"

definition match_VideoId :: "string \<Rightarrow> bool" where
  \<comment> \<open>\<^verbatim>\<open>s.match(/^[a-zA-Z0-9_-]{11}$/)\<close> is not \<^verbatim>\<open>null\<close>; the match is then \<open>s\<close> itself\<close>
  "match_VideoId s \<longleftrightarrow> length s = 11 \<and> list_all id_char s"

text \<open>
  \<^verbatim>\<open>(input || "").trim()\<close>: a falsy input becomes the empty string; a truthy value that is
  not a string has no method \<^verbatim>\<open>trim\<close>, and the call throws.
\<close>

definition trimmed_input :: "platform \<Rightarrow> jsval \<Rightarrow> string completion" where
  "trimmed_input env input =
     (case or_else input (Str []) of
        Str s \<Rightarrow> Return (trim s)
      | _ \<Rightarrow> Throw (TypeError (not_a_function env)))"

definition strip_www :: "string \<Rightarrow> string" where
  \<comment> \<open>\<^verbatim>\<open>hostname.replace(/^www\./, "")\<close>\<close>
  "strip_www h = (if startsWith h ''www.'' then drop 4 h else h)"

definition path_parts :: "url \<Rightarrow> string list" where
  \<comment> \<open>\<^verbatim>\<open>url.pathname.split("/").filter(Boolean)\<close>\<close>
  "path_parts u = filter (\<lambda>p. p \<noteq> []) (split CHR ''/'' (pathname u))"

definition extractVideoId :: "platform \<Rightarrow> jsval \<Rightarrow> string option completion" where
  "extractVideoId env input =
     (case trimmed_input env input of
        Throw e \<Rightarrow> Throw e
      | Return raw \<Rightarrow>
          if raw = [] then Return None
          else if match_VideoId raw then Return (Some raw)
          else
            (case new_URL env raw of
               None \<Rightarrow> Return None
             | Some u \<Rightarrow>
                 let host = strip_www (hostname u) in
                 if host = ''youtu.be'' then
                   (let ident = or_empty (at (path_parts u) 0) in
                    Return (if match_VideoId ident then Some ident else None))
                 else if endsWith host ''youtube.com'' then
                   (let v = searchParams_get (searchParams u) ''v'' in
                    if or_empty v \<noteq> [] \<and> match_VideoId (or_empty v) then Return v
                    else
                      (let parts = path_parts u; maybe = or_empty (at parts 1) in
                       if at parts 0 = Some ''shorts'' \<or> at parts 0 = Some ''embed''
                       then Return (if match_VideoId maybe then Some maybe else None)
                       else Return None))
                 else Return None))"

text \<open>
  \<^verbatim>\<open>raw.match(/UC[a-zA-Z0-9_-]{22}/)\<close> and \<^verbatim>\<open>raw.match(/PL[a-zA-Z0-9_-]+/)\<close> search
  from the left; the first position where the pattern matches gives the result. The
  \<^verbatim>\<open>+\<close> takes as many characters as it can.
\<close>

definition channel_here :: "string \<Rightarrow> string option" where
  "channel_here s =
     (if startsWith s ''UC'' \<and> 24 \<le> length s \<and> list_all id_char (take 22 (drop 2 s))
      then Some (take 24 s) else None)"

definition playlist_here :: "string \<Rightarrow> string option" where
  "playlist_here s =
     (if startsWith s ''PL'' \<and> takeWhile id_char (drop 2 s) \<noteq> []
      then Some (''PL'' @ takeWhile id_char (drop 2 s)) else None)"

fun search :: "(string \<Rightarrow> string option) \<Rightarrow> string \<Rightarrow> string option" where
  "search here [] = here []"
| "search here (c # cs) =
     (case here (c # cs) of Some m \<Rightarrow> Some m | None \<Rightarrow> search here cs)"

definition extractChannelId :: "platform \<Rightarrow> jsval \<Rightarrow> string option completion" where
  "extractChannelId env input =
     (case trimmed_input env input of
        Throw e \<Rightarrow> Throw e
      | Return raw \<Rightarrow> if raw = [] then Return None else Return (search channel_here raw))"

definition extractPlaylistId :: "platform \<Rightarrow> jsval \<Rightarrow> string option completion" where
  "extractPlaylistId env input =
     (case trimmed_input env input of
        Throw e \<Rightarrow> Throw e
      | Return raw \<Rightarrow> if raw = [] then Return None else Return (search playlist_here raw))"

section \<open>The page\<close>

text \<open>
  An element of the document: its tag, the properties the program assigns, its text, its
  children, and its click listener. A listener of the results list is \<open>Some v\<close>, for the
  \<^verbatim>\<open>videoId\<close> of the item it closes over.
\<close>

datatype element =
  Element (tag: string) (properties: "(string \<times> string) list") (textContent: string)
    (children: "element list") (listener: "jsval option")

text \<open>
  The state the program reads and writes: the elements it selects by id, and the search
  parameters of the page's address (\<^verbatim>\<open>history.replaceState\<close> changes nothing else of it).
\<close>

record page =
  status_text :: string
  status_error :: bool
  frame_src :: string
  placeholder_display :: string
  metaTitle :: string
  metaByline :: string
  metaActions :: "element list"
  resultsTitle :: string
  resultsSub :: string
  resultsList :: "element list"
  videoInput :: string
  channelInput :: string
  playlistInput :: string
  location :: "(string \<times> string) list"

text \<open>
  An \<^verbatim>\<open>async\<close> function runs until it awaits the response of a request. What it has
  written by then is in the page; \<open>Pending path resume\<close> is the request it waits for and
  what it does once the response is there (or the request has failed), on the page as it
  is at that moment.
\<close>

datatype pending = Pending string "response completion \<Rightarrow> page \<Rightarrow> page"

definition setStatus :: "string \<Rightarrow> bool \<Rightarrow> page \<Rightarrow> page" where
  "setStatus msg error st = st\<lparr>status_text := msg, status_error := error\<rparr>"

section \<open>Query state\<close>

definition query_step :: "string \<times> jsval \<Rightarrow> (string \<times> string) list \<Rightarrow> (string \<times> string) list" where
  \<comment> \<open>the function \<^verbatim>\<open>setQuery\<close> applies to each entry \<^verbatim>\<open>[k, v]\<close>\<close>
  "query_step =
     (\<lambda>(k, v) ps.
        if v = Null \<or> v = Undefined \<or> v = Str [] then searchParams_delete ps k
        else searchParams_set ps k (ToString v))"

definition setQuery :: "(string \<times> jsval) list \<Rightarrow> page \<Rightarrow> page" where
  \<comment> \<open>\<open>updates\<close> is \<^verbatim>\<open>Object.entries(updates)\<close>\<close>
  "setQuery updates st = st\<lparr>location := fold query_step updates (location st)\<rparr>"

section \<open>Remote data\<close>

definition HTTP_status :: "response \<Rightarrow> string" where
  \<comment> \<open>the template literal \<^verbatim>\<open>HTTP ${res.status}\<close>\<close>
  "HTTP_status res = ''HTTP '' @ digits (status res)"

definition payload :: "platform \<Rightarrow> response \<Rightarrow> jsval" where
  \<comment> \<open>\<^verbatim>\<open>data\<close> after the \<^verbatim>\<open>try\<close> of \<^verbatim>\<open>fetchJson\<close>\<close>
  "payload env res =
     (case JSON_parse env (body res) of
        Some data \<Rightarrow> data
      | None \<Rightarrow> Object [(''error'', or_else (Str (body res)) (Str (HTTP_status res)))])"

definition fetchJson :: "platform \<Rightarrow> response completion \<Rightarrow> jsval completion" where
  \<comment> \<open>from the response on; a request that fails throws what the platform throws\<close>
  "fetchJson env outcome =
     (case outcome of
        Throw e \<Rightarrow> Throw e
      | Return res \<Rightarrow>
          let data = payload env res in
          if \<not> ok res
          then Throw (Error (ToString (or_else (get data ''error'') (Str (HTTP_status res)))))
          else Return data)"

section \<open>Rendering\<close>



definition renderMeta :: "platform \<Rightarrow> jsval \<Rightarrow> page \<Rightarrow> page" where
  \<comment> \<open>the argument is the object the parameter list takes apart\<close>
  "renderMeta env arg st =
     (let videoId = get arg ''videoId'';
          title = get arg ''title'';
          author_name = get arg ''author_name'';
          st1 = st\<lparr>metaTitle :=
                      ToString (or_else title
                        (if truthy videoId then Str (''Video: '' @ ToString videoId) else Str [])),
                    metaByline :=
                      (if truthy author_name then ''by '' @ ToString author_name else []),
                    metaActions := []\<rparr>
      in if \<not> truthy videoId then st1
         else
           st1\<lparr>metaActions :=
                 [Element ''a''
                    [(''href'', ''https://www.youtube.com/watch?v='' @
                                 encodeURIComponent env (ToString videoId)),
                     (''target'', ''_blank''), (''rel'', ''noreferrer noopener'')]
                    ''Open on YouTube'' [] None,
                  Element ''a''
                    [(''href'',
                      page_href env (searchParams_set (location st) ''v'' (ToString videoId)))]
                    ''Permalink'' [] None]\<rparr>)"

definition formatDate :: "platform \<Rightarrow> jsval \<Rightarrow> jsval" where
  "formatDate env stamp =
     (if \<not> truthy stamp then Str []
      else (case medium_date env stamp of None \<Rightarrow> stamp | Some t \<Rightarrow> Str t))"

definition no_items :: element where
  \<comment> \<open>the entry \<^verbatim>\<open>empty\<close> of \<^verbatim>\<open>renderFeed\<close>\<close>
  "no_items = Element ''li'' [(''className'', ''status'')] ''No items.'' [] None"

definition item_link :: "platform \<Rightarrow> jsval \<Rightarrow> jsval" where
  \<comment> \<open>\<^verbatim>\<open>item.link\<close>: an item that is a string inherits the method \<^verbatim>\<open>link\<close>, a function,
      which is truthy and is written as its text\<close>
  "item_link env item = (case item of Str s \<Rightarrow> Str (String_link env) | _ \<Rightarrow> get item ''link'')"

definition feed_entry :: "platform \<Rightarrow> jsval \<Rightarrow> element" where
  \<comment> \<open>the \<^verbatim>\<open>li\<close> the loop of \<^verbatim>\<open>renderFeed\<close> builds for an item that is neither
      \<^verbatim>\<open>null\<close> nor \<^verbatim>\<open>undefined\<close>\<close>
  "feed_entry env item =
     (let thumb =
            Element ''div'' [(''className'', ''thumb'')] []
              (if truthy (get item ''thumbnail'')
               then [Element ''img''
                       [(''loading'', ''lazy''), (''alt'', []),
                        (''src'', ToString (get item ''thumbnail''))] [] [] None]
               else []) None;
          title =
            Element ''p'' [(''className'', ''itemTitle'')]
              (ToString (or_else (or_else (get item ''title'') (get item ''videoId''))
                           (Str ''Untitled''))) [] None;
          date = Element ''span'' [] (ToString (formatDate env (get item ''published''))) [] None;
          anchor =
            Element ''a''
              [(''href'',
                ToString (or_else (item_link env item)
                  (Str (''https://www.youtube.com/watch?v='' @ ToString (get item ''videoId''))))),
               (''target'', ''_blank''), (''rel'', ''noreferrer noopener'')]
              ''YouTube'' [] None;
          meta = Element ''div'' [(''className'', ''itemMeta'')] [] [date, anchor] None;
          desc =
            Element ''div'' [(''className'', ''itemDesc'')]
              (ToString (or_else (get item ''description'') (Str []))) [] None;
          body = Element ''div'' [] [] [title, meta, desc] None
      in Element ''li'' [(''className'', ''item'')] [] [thumb, body]
           (Some (get item ''videoId'')))"

text \<open>
  The loop over the items appends one entry after the other; reading \<^verbatim>\<open>item.thumbnail\<close>
  of an item that is \<^verbatim>\<open>null\<close> throws, and the entries appended so far stay.
\<close>

fun append_items :: "platform \<Rightarrow> jsval list \<Rightarrow> element list \<Rightarrow> unit completion \<times> element list" where
  "append_items env [] list = (Return (), list)"
| "append_items env (item # items) list =
     (if item = Null \<or> item = Undefined then (Throw (TypeError (null_property env)), list)
      else append_items env items (list @ [feed_entry env item]))"

definition feed_items :: "jsval \<Rightarrow> jsval list" where
  \<comment> \<open>\<^verbatim>\<open>Array.isArray(feed?.items) ? feed.items : []\<close>\<close>
  "feed_items feed = (case get feed ''items'' of Array xs \<Rightarrow> xs | _ \<Rightarrow> [])"

definition renderFeed :: "platform \<Rightarrow> jsval \<Rightarrow> page \<Rightarrow> unit completion \<times> page" where
  "renderFeed env feed st =
     (let st1 = st\<lparr>resultsTitle := ToString (or_else (get feed ''title'') (Str ''Feed'')),
                    resultsSub := ToString (or_else (get feed ''feedUrl'') (Str [])),
                    resultsList := []\<rparr>;
          items = feed_items feed
      in if length items = 0 then (Return (), st1\<lparr>resultsList := [no_items]\<rparr>)
         else (case append_items env items [] of
                 (thrown, list) \<Rightarrow> (thrown, st1\<lparr>resultsList := list\<rparr>)))"

section \<open>Orchestration\<close>



definition feed_failed :: "platform \<Rightarrow> js_error \<Rightarrow> page \<Rightarrow> page" where
  \<comment> \<open>the \<^verbatim>\<open>catch\<close> of \<^verbatim>\<open>loadFeed\<close>\<close>
  "feed_failed env e st =
     snd (renderFeed env (Object [(''title'', Str ''Feed''), (''items'', Array [])])
            (setStatus (if message e \<noteq> [] then message e else ''Failed to load feed'') True st))"

definition loadFeed :: "platform \<Rightarrow> (string \<times> string) list \<Rightarrow> page \<Rightarrow> page \<times> pending option" where
  \<comment> \<open>the status text ends in U+2026\<close>
  "loadFeed env params st =
     (setStatus (''Loading feed'' @ [CHR 0xE2, CHR 0x80, CHR 0xA6]) False st,
      Some (Pending (href_with env ''/api/feed'' params)
        (\<lambda>outcome st.
           case fetchJson env outcome of
             Throw e \<Rightarrow> feed_failed env e st
           | Return data \<Rightarrow>
               (case renderFeed env data st of
                  (Return u, st1) \<Rightarrow> setStatus [] False st1
                | (Throw e, st1) \<Rightarrow> feed_failed env e st1))))"

text \<open>
  A call of an extractor on a page. The bodies of the three extractors name their
  argument, string and pattern methods and \<^verbatim>\<open>URL\<close>, and nothing of the document, the
  window or the history: they return their result and leave the page as it is.
\<close>

definition extractVideoId_call ::
  "platform \<Rightarrow> jsval \<Rightarrow> page \<Rightarrow> string option completion \<times> page" where
  "extractVideoId_call env input st = (extractVideoId env input, st)"

definition extractChannelId_call ::
  "platform \<Rightarrow> jsval \<Rightarrow> page \<Rightarrow> string option completion \<times> page" where
  "extractChannelId_call env input st = (extractChannelId env input, st)"

definition extractPlaylistId_call ::
  "platform \<Rightarrow> jsval \<Rightarrow> page \<Rightarrow> string option completion \<times> page" where
  "extractPlaylistId_call env input st = (extractPlaylistId env input, st)"


definition channelBtn_click :: "platform \<Rightarrow> page \<Rightarrow> page \<times> pending option" where
  "channelBtn_click env st =
     (case extractChannelId_call env (Str (channelInput st)) st of
        (Throw e, st1) \<Rightarrow> (st1, None)
      | (Return None, st1) \<Rightarrow>
          (setStatus (''Enter a channel ID like UC'' @ [CHR 0xE2, CHR 0x80, CHR 0xA6] @
                      '' (handles need a channel ID).'') True st1, None)
      | (Return (Some ident), st1) \<Rightarrow>
          loadFeed env [(''channel_id'', ident)]
            (setQuery [(''channel'', Str ident), (''playlist'', Null)] st1))"

definition playlistBtn_click :: "platform \<Rightarrow> page \<Rightarrow> page \<times> pending option" where
  "playlistBtn_click env st =
     (case extractPlaylistId_call env (Str (playlistInput st)) st of
        (Throw e, st1) \<Rightarrow> (st1, None)
      | (Return None, st1) \<Rightarrow>
          (setStatus (''Enter a playlist ID like PL'' @ [CHR 0xE2, CHR 0x80, CHR 0xA6]) True st1,
           None)
      | (Return (Some ident), st1) \<Rightarrow>
          loadFeed env [(''playlist_id'', ident)]
            (setQuery [(''playlist'', Str ident), (''channel'', Null)] st1))"



section \<open>The identifiers and the URL rule of the specification\<close>

text \<open>
  The specification's words, written without the definitions of the code above. An id
  character is a letter, a digit, \<^verbatim>\<open>_\<close> or \<^verbatim>\<open>-\<close>, by its code. A VideoId is exactly 11
  of them, a ChannelId is \<^verbatim>\<open>UC\<close> and 22 of them, a PlaylistId is \<^verbatim>\<open>PL\<close> and one or more.
\<close>

definition spec_id_char :: "char \<Rightarrow> bool" where
  "spec_id_char c \<longleftrightarrow>
     (let n = (of_char c :: nat)
      in 97 \<le> n \<and> n \<le> 122 \<or> 65 \<le> n \<and> n \<le> 90 \<or> 48 \<le> n \<and> n \<le> 57 \<or> n = 95 \<or> n = 45)"

definition spec_VideoId :: "string \<Rightarrow> bool" where
  "spec_VideoId s \<longleftrightarrow> length s = 11 \<and> list_all spec_id_char s"

definition spec_ChannelId :: "string \<Rightarrow> bool" where
  "spec_ChannelId s \<longleftrightarrow>
     length s = 24 \<and> take 2 s = ''UC'' \<and> list_all spec_id_char (drop 2 s)"

definition spec_PlaylistId :: "string \<Rightarrow> bool" where
  "spec_PlaylistId s \<longleftrightarrow>
     3 \<le> length s \<and> take 2 s = ''PL'' \<and> list_all spec_id_char (drop 2 s)"

text \<open>
  What the specification says \<^verbatim>\<open>extractVideoId\<close> gives for an input that parses as a
  URL, in the specification's order: the host without a leading \<^verbatim>\<open>www.\<close>; for
  \<^verbatim>\<open>youtu.be\<close> the first non-empty path segment; for a host ending in \<^verbatim>\<open>youtube.com\<close>
  the parameter \<^verbatim>\<open>v\<close>, else the second segment after \<^verbatim>\<open>shorts\<close> or \<^verbatim>\<open>embed\<close>; a
  candidate counts only if it is a VideoId.
\<close>

fun spec_host :: "string \<Rightarrow> string" where
  \<comment> \<open>the host, a leading \<^verbatim>\<open>www.\<close> stripped\<close>
  "spec_host (a # b # c # d # rest) = (if [a, b, c, d] = ''www.'' then rest else a # b # c # d # rest)"
| "spec_host h = h"

fun segments_from :: "string \<Rightarrow> string \<Rightarrow> string list" where
  \<comment> \<open>the non-empty segments between the slashes of a path; the first argument is the
      segment read so far\<close>
  "segments_from seg [] = (if seg = [] then [] else [seg])"
| "segments_from seg (c # cs) =
     (if c = CHR ''/'' then (if seg = [] then segments_from [] cs else seg # segments_from [] cs)
      else segments_from (seg @ [c]) cs)"

definition spec_segments :: "url \<Rightarrow> string list" where
  "spec_segments u = segments_from [] (pathname u)"

fun ends_in :: "string \<Rightarrow> string \<Rightarrow> bool" where
  \<comment> \<open>\<open>ends_in p s\<close>: \<open>p\<close> is \<open>s\<close> or the end of \<open>s\<close>\<close>
  "ends_in p [] = (p = [])"
| "ends_in p (c # cs) = (c # cs = p \<or> ends_in p cs)"

definition spec_param :: "url \<Rightarrow> string \<Rightarrow> string option" where
  \<comment> \<open>the value of the first query parameter of a name\<close>
  "spec_param u k = map_option snd (find (\<lambda>p. fst p = k) (searchParams u))"

definition shorts_or_embed :: "string list \<Rightarrow> string option" where
  "shorts_or_embed segs =
     (case segs of
        first # second # rest \<Rightarrow>
          if (first = ''shorts'' \<or> first = ''embed'') \<and> spec_VideoId second then Some second
          else None
      | _ \<Rightarrow> None)"

definition spec_url_VideoId :: "url \<Rightarrow> string option" where
  "spec_url_VideoId u =
     (if spec_host (hostname u) = ''youtu.be'' then
        (case spec_segments u of
           [] \<Rightarrow> None
         | first # rest \<Rightarrow> if spec_VideoId first then Some first else None)
      else if ends_in ''youtube.com'' (spec_host (hostname u)) then
        (case spec_param u ''v'' of
           None \<Rightarrow> shorts_or_embed (spec_segments u)
         | Some v \<Rightarrow> if spec_VideoId v then Some v else shorts_or_embed (spec_segments u))
      else None)"

section \<open>A browser for the examples\<close>

text \<open>
  One platform, defined on a few addresses and bodies, for the closed examples below. Its
  URL texts are the plain ones of addresses and values that need no escaping.
\<close>

definition query_text :: "(string \<times> string) list \<Rightarrow> string" where
  "query_text ps = join ''&'' (map (\<lambda>p. fst p @ ''='' @ snd p) ps)"

definition example_URL :: "string \<Rightarrow> url option" where
  "example_URL s =
     (if s = ''https://youtu.be/dQw4w9WgXcQ'' then
        Some \<lparr>hostname = ''youtu.be'', pathname = ''/dQw4w9WgXcQ'', searchParams = []\<rparr>
      else if s = ''https://www.youtu.be/dQw4w9WgXcQ'' then
        Some \<lparr>hostname = ''www.youtu.be'', pathname = ''/dQw4w9WgXcQ'', searchParams = []\<rparr>
      else if s = ''https://m.youtube.com//embed//dQw4w9WgXcQ/?v=short'' then
        Some \<lparr>hostname = ''m.youtube.com'', pathname = ''//embed//dQw4w9WgXcQ/'',
              searchParams = [(''v'', ''short'')]\<rparr>
      else if s = ''https://www.youtube.com/watch?v=dQw4w9WgXcQ&t=5'' then
        Some \<lparr>hostname = ''www.youtube.com'', pathname = ''/watch'',
              searchParams = [(''v'', ''dQw4w9WgXcQ''), (''t'', ''5'')]\<rparr>
      else if s = ''https://www.youtube.com/shorts/dQw4w9WgXcQ'' then
        Some \<lparr>hostname = ''www.youtube.com'', pathname = ''/shorts/dQw4w9WgXcQ'',
              searchParams = []\<rparr>
      else if s = ''https://example.org/watch?v=dQw4w9WgXcQ'' then
        Some \<lparr>hostname = ''example.org'', pathname = ''/watch'',
              searchParams = [(''v'', ''dQw4w9WgXcQ'')]\<rparr>
      else None)"

definition example_JSON :: "string \<Rightarrow> jsval option" where
  "example_JSON s =
     (if s = ''{\"error\":\"Upstream feed error\"}'' then
        Some (Object [(''error'', Str ''Upstream feed error'')])
      else if s = ''{\"error\":\"\"}'' then Some (Object [(''error'', Str [])])
      else if s = ''{}'' then Some (Object [])
      else if s = ''{\"title\":\"Never Gonna Give You Up\",\"author_name\":\"Rick Astley\"}'' then
        Some (Object [(''title'', Str ''Never Gonna Give You Up''),
                      (''author_name'', Str ''Rick Astley'')])
      else None)"

definition example_browser :: platform where
  "example_browser =
     \<lparr>new_URL = example_URL,
      JSON_parse = example_JSON,
      encodeURIComponent = (\<lambda>s. s),
      medium_date = (\<lambda>v. None),
      href_with = (\<lambda>address ps. address @ ''?'' @ query_text ps),
      page_href = (\<lambda>ps. ''http://127.0.0.1:8000/?'' @ query_text ps),
      not_a_function = ''(input || \"\").trim is not a function'',
      null_property = ''Cannot read properties of null'',
      String_link = ''function link() { [native code] }''\<rparr>"

definition example_page :: page where
  "example_page =
     \<lparr>status_text = [], status_error = False, frame_src = [], placeholder_display = ''grid'',
      metaTitle = [], metaByline = [], metaActions = [],
      resultsTitle = [], resultsSub = [], resultsList = [],
      videoInput = [], channelInput = [], playlistInput = [],
      location = [(''v'', ''dQw4w9WgXcQ''), (''playlist'', ''PL1'')]\<rparr>"


definition example_feed :: jsval where
  "example_feed =
     Object [(''title'', Str ''Uploads''),
             (''items'',
              Array [Object [(''videoId'', Str ''dQw4w9WgXcQ''), (''title'', Str ''One'')],
                     Object [(''link'', Str ''https://example.org/x'')]])]"

section \<open>Trimming and the shape of an id\<close>

lemma id_char_not_space:
  "id_char c \<Longrightarrow> c \<notin> set (map hd white_space) \<and> c \<notin> set (map last white_space) \<and> c \<noteq> CHR '':''"
  unfolding id_char_def white_space_def by auto

lemma find_None_iff: "(\<And>w. w \<in> set ws \<Longrightarrow> \<not> P w) \<Longrightarrow> find P ws = None"
  by (induction ws) auto

lemma leading_space_id_char: "id_char c \<Longrightarrow> leading_space (c # cs) = 0"
proof -
  assume c: "id_char c"
  have "find (startsWith (c # cs)) white_space = None"
  proof (rule find_None_iff)
    fix w assume w: "w \<in> set white_space"
    then have "w \<noteq> []" unfolding white_space_def by auto
    then obtain a v where "w = a # v" by (cases w) auto
    moreover from this w have "a \<in> set (map hd white_space)" by force
    ultimately show "\<not> startsWith (c # cs) w"
      using id_char_not_space [OF c] by (auto simp: startsWith_def)
  qed
  then show ?thesis by (simp add: leading_space_def)
qed

lemma trailing_space_id_char: "id_char c \<Longrightarrow> trailing_space (cs @ [c]) = 0"
proof -
  assume c: "id_char c"
  have "find (endsWith (cs @ [c])) white_space = None"
  proof (rule find_None_iff)
    fix w assume w: "w \<in> set white_space"
    then have "w \<noteq> []" unfolding white_space_def by auto
    then obtain a v where wv: "w = v @ [a]" by (cases w rule: rev_cases) auto
    moreover from this w have "a \<in> set (map last white_space)" by force
    ultimately have "a \<noteq> c" using id_char_not_space [OF c] by auto
    then show "\<not> endsWith (cs @ [c]) w" unfolding endsWith_def wv
      by (auto dest: arg_cong [where f = last])
  qed
  then show ?thesis by (simp add: trailing_space_def)
qed

lemma trim_id_chars: "s \<noteq> [] \<Longrightarrow> list_all id_char s \<Longrightarrow> trim s = s"
proof -
  assume ne: "s \<noteq> []" and all: "list_all id_char s"
  from ne obtain c cs where s1: "s = c # cs" by (cases s) auto
  from ne obtain d ds where s2: "s = ds @ [d]" by (cases s rule: rev_cases) auto
  have "trimStart s = s"
    using all unfolding s1 by (subst trimStart.simps) (simp add: leading_space_id_char)
  moreover have "trimEnd s = s"
    using all unfolding s2 by (subst trimEnd.simps) (simp add: trailing_space_id_char)
  ultimately show ?thesis by (simp add: trim_def)
qed

lemma trimmed_input_Str: "trimmed_input env (Str s) = Return (trim s)"
  by (simp add: trimmed_input_def or_else_def)

lemma trimmed_input_falsy: "\<not> truthy input \<Longrightarrow> trimmed_input env input = Return (trim [])"
  by (simp add: trimmed_input_def or_else_def)

lemma trim_Nil: "trim [] = []"
  by (simp add: trim_def trimStart.simps trimEnd.simps leading_space_def trailing_space_def
      white_space_def startsWith_def endsWith_def)

lemma match_VideoId_no_colon: "match_VideoId s \<Longrightarrow> CHR '':'' \<notin> set s"
  using id_char_not_space by (auto simp: match_VideoId_def list_all_iff)

section \<open>Identifier extractors: what they return\<close>

text \<open>
  C2. A string of exactly 11 characters of \<^verbatim>\<open>[A-Za-z0-9_-]\<close> is left as it is by the
  trim, and \<^verbatim>\<open>extractVideoId\<close> returns it unchanged, whatever the platform.
\<close>

theorem extractVideoId_direct:
  "length s = 11 \<Longrightarrow> list_all id_char s \<Longrightarrow>
     trim s = s \<and> extractVideoId env (Str s) = Return (Some s)"
proof -
  assume l: "length s = 11" and a: "list_all id_char s"
  then have ne: "s \<noteq> []" by auto
  have t: "trim s = s" by (rule trim_id_chars [OF ne a])
  show ?thesis using l a ne t
    by (simp add: extractVideoId_def trimmed_input_Str match_VideoId_def)
qed

theorem extractVideoId_direct_witness:
  "trim ''dQw4w9WgXcQ'' = ''dQw4w9WgXcQ'' \<and>
   extractVideoId example_browser (Str ''dQw4w9WgXcQ'') = Return (Some ''dQw4w9WgXcQ'')"
  using extractVideoId_direct [of "''dQw4w9WgXcQ''" example_browser]
  by (simp add: id_char_def)

section \<open>The code's patterns and helpers are those of the specification\<close>

lemma id_char_spec: "id_char c \<longleftrightarrow> spec_id_char c"
proof
  show "id_char c \<Longrightarrow> spec_id_char c"
    unfolding id_char_def spec_id_char_def by auto
next
  assume h: "spec_id_char c"
  define alphabet where
    "alphabet = ''abcdefghijklmnopqrstuvwxyz'' @ ''ABCDEFGHIJKLMNOPQRSTUVWXYZ'' @ ''0123456789_-''"
  have lower: "map of_char ''abcdefghijklmnopqrstuvwxyz'' = [97..<123::nat]"
    and upper: "map of_char ''ABCDEFGHIJKLMNOPQRSTUVWXYZ'' = [65..<91::nat]"
    and digit: "map of_char ''0123456789_-'' = [48..<58::nat] @ [95, 45]"
    by code_simp+
  have codes: "set (map of_char alphabet) = {97..<123::nat} \<union> {65..<91} \<union> {48..<58} \<union> {95, 45}"
    unfolding alphabet_def map_append lower upper digit set_append set_upt by auto
  from h have "(of_char c :: nat) \<in> {97..<123} \<union> {65..<91} \<union> {48..<58} \<union> {95, 45}"
    unfolding spec_id_char_def Let_def by auto
  then have "(of_char c :: nat) \<in> set (map of_char alphabet)"
    unfolding codes .
  then obtain d where d: "d \<in> set alphabet" and "(of_char c :: nat) = of_char d"
    by auto
  then have "c = d" by simp
  with d show "id_char c" by (simp add: id_char_def alphabet_def)
qed

lemma list_all_id_char: "list_all id_char s = list_all spec_id_char s"
  by (induction s) (simp_all add: id_char_spec)

lemma match_VideoId_spec: "match_VideoId s \<longleftrightarrow> spec_VideoId s"
  by (simp add: match_VideoId_def spec_VideoId_def list_all_id_char)

lemma strip_www_spec: "strip_www h = spec_host h"
  by (cases h rule: spec_host.cases) (auto simp: strip_www_def startsWith_def)

lemma split_not_Nil: "split sep s \<noteq> []"
  by (induction s) (auto split: list.splits)

lemma segments_from_split:
  "segments_from seg s =
     filter (\<lambda>p. p \<noteq> []) (case split CHR ''/'' s of x # xs \<Rightarrow> (seg @ x) # xs | [] \<Rightarrow> [])"
proof (induction s arbitrary: seg)
  case Nil
  then show ?case by simp
next
  case (Cons c cs)
  obtain x xs where x: "split CHR ''/'' cs = x # xs"
    using split_not_Nil [of "CHR ''/''" cs] by (cases "split CHR ''/'' cs") auto
  show ?case
    by (simp add: Cons.IH x)
qed

lemma path_parts_spec: "path_parts u = spec_segments u"
proof -
  obtain x xs where x: "split CHR ''/'' (pathname u) = x # xs"
    using split_not_Nil [of "CHR ''/''" "pathname u"] by (cases "split CHR ''/'' (pathname u)") auto
  show ?thesis
    by (simp add: path_parts_def spec_segments_def segments_from_split x)
qed

lemma endsWith_spec: "endsWith s p \<longleftrightarrow> ends_in p s"
proof (induction s)
  case Nil
  then show ?case by (auto simp: endsWith_def)
next
  case (Cons c cs)
  show ?case
  proof (cases "length p \<le> length cs")
    case True
    then have "Suc (length cs) - length p = Suc (length cs - length p)" by simp
    then have "endsWith (c # cs) p \<longleftrightarrow> endsWith cs p"
      using True by (simp add: endsWith_def)
    moreover have "c # cs \<noteq> p" using True by auto
    ultimately show ?thesis using Cons.IH by simp
  next
    case False
    then have "\<not> endsWith cs p" by (simp add: endsWith_def)
    then have no: "\<not> ends_in p cs" using Cons.IH by simp
    have "endsWith (c # cs) p \<longleftrightarrow> c # cs = p"
      using False by (auto simp: endsWith_def)
    then show ?thesis using no by simp
  qed
qed

lemma map_of_find: "map_of ps k = map_option snd (find (\<lambda>p. fst p = k) ps)"
  by (induction ps) auto

lemma searchParams_get_spec: "searchParams_get (searchParams u) k = spec_param u k"
  by (simp add: searchParams_get_def spec_param_def map_of_find)

text \<open>The two path rules of the code are those of the specification.\<close>

lemma path_rule:
  "(let parts = path_parts u; maybe = or_empty (at parts 1) in
     if at parts 0 = Some ''shorts'' \<or> at parts 0 = Some ''embed''
     then Return (if match_VideoId maybe then Some maybe else None)
     else Return None) = Return (shorts_or_embed (spec_segments u))"
proof -
  have short: "\<not> spec_VideoId []" and shorts: "\<not> spec_VideoId ''shorts''"
    by (simp_all add: spec_VideoId_def)
  show ?thesis
    unfolding path_parts_spec match_VideoId_spec
    by (cases "spec_segments u"; cases "tl (spec_segments u)")
       (auto simp: shorts_or_embed_def at_def or_empty_def Let_def short)
qed

lemma youtu_be_rule:
  "(let ident = or_empty (at (path_parts u) 0) in
      Return (if match_VideoId ident then Some ident else None)) =
   Return (case spec_segments u of [] \<Rightarrow> None
           | first # rest \<Rightarrow> if spec_VideoId first then Some first else None)"
proof -
  have short: "\<not> spec_VideoId []" by (simp add: spec_VideoId_def)
  show ?thesis
    unfolding path_parts_spec match_VideoId_spec
    by (cases "spec_segments u") (auto simp: at_def or_empty_def Let_def short)
qed

lemma spec_url_VideoId_shape: "spec_url_VideoId u = Some r \<Longrightarrow> spec_VideoId r"
  by (auto simp: spec_url_VideoId_def shorts_or_embed_def
      split: if_splits list.splits option.splits)

text \<open>
  C1. For an input whose trimmed text parses as a URL, \<^verbatim>\<open>extractVideoId\<close> returns what
  the rule of the specification gives for the parsed URL (\<open>spec_url_VideoId\<close>, written
  with the specification's own host, segments, parameter and VideoId: after a leading
  \<^verbatim>\<open>www.\<close> is stripped from the host, the first non-empty path segment for
  \<^verbatim>\<open>youtu.be\<close>; for a host ending in \<^verbatim>\<open>youtube.com\<close> the parameter \<^verbatim>\<open>v\<close>, else the
  second non-empty segment after \<^verbatim>\<open>shorts\<close> or \<^verbatim>\<open>embed\<close>; no match otherwise), and
  whatever it returns is exactly 11 id characters. The platform's parser is any that
  accepts only texts with a \<^verbatim>\<open>:\<close>, as a parser of absolute URLs does: the scheme ends
  there.
\<close>

theorem extractVideoId_url:
  assumes scheme: "\<And>t u. new_URL env t = Some u \<Longrightarrow> CHR '':'' \<in> set t"
    and parsed: "new_URL env (trim s) = Some u"
  shows "extractVideoId env (Str s) = Return (spec_url_VideoId u) \<and>
         (\<forall>r. extractVideoId env (Str s) = Return (Some r) \<longrightarrow> spec_VideoId r)"
proof -
  have colon: "CHR '':'' \<in> set (trim s)" by (rule scheme [OF parsed])
  then have ne: "trim s \<noteq> []" by auto
  have direct: "\<not> match_VideoId (trim s)" using colon match_VideoId_no_colon by blast
  have v: "or_empty v \<noteq> [] \<and> spec_VideoId (or_empty v) \<longleftrightarrow> (\<exists>x. v = Some x \<and> spec_VideoId x)" for v
    by (cases v) (auto simp: or_empty_def spec_VideoId_def)
  have "extractVideoId env (Str s) = Return (spec_url_VideoId u)"
    unfolding extractVideoId_def trimmed_input_Str spec_url_VideoId_def path_rule youtu_be_rule
      strip_www_spec endsWith_spec searchParams_get_spec
    using ne direct parsed
    by (auto simp: v match_VideoId_spec Let_def split: option.splits)
  then show ?thesis using spec_url_VideoId_shape by auto
qed

theorem extractVideoId_url_witness:
  "new_URL example_browser (trim '' https://www.youtu.be/dQw4w9WgXcQ '') =
     Some \<lparr>hostname = ''www.youtu.be'', pathname = ''/dQw4w9WgXcQ'', searchParams = []\<rparr> \<and>
   extractVideoId example_browser (Str '' https://www.youtu.be/dQw4w9WgXcQ '') =
     Return (Some ''dQw4w9WgXcQ'') \<and>
   spec_VideoId ''dQw4w9WgXcQ''"
proof -
  let ?u = "\<lparr>hostname = ''www.youtu.be'', pathname = ''/dQw4w9WgXcQ'', searchParams = []\<rparr>"
  have scheme: "\<And>t u. new_URL example_browser t = Some u \<Longrightarrow> CHR '':'' \<in> set t"
    by (auto simp: example_browser_def example_URL_def split: if_splits)
  have tr: "trim '' https://www.youtu.be/dQw4w9WgXcQ '' = ''https://www.youtu.be/dQw4w9WgXcQ''"
    by code_simp
  have parsed: "new_URL example_browser (trim '' https://www.youtu.be/dQw4w9WgXcQ '') = Some ?u"
    by (simp add: tr example_browser_def example_URL_def)
  have spec: "spec_url_VideoId ?u = Some ''dQw4w9WgXcQ''"
    by code_simp
  show ?thesis
    using extractVideoId_url [OF scheme parsed] parsed spec by simp
qed

text \<open>
  The examples of the specification, and some more: a host with \<^verbatim>\<open>www.\<close>, empty path
  segments, a parameter \<^verbatim>\<open>v\<close> that is no id, another host, ten characters.
\<close>

lemma extractVideoId_examples:
  "extractVideoId example_browser (Str ''https://youtu.be/dQw4w9WgXcQ'') = Return (Some ''dQw4w9WgXcQ'')"
  "extractVideoId example_browser (Str ''https://www.youtu.be/dQw4w9WgXcQ'') = Return (Some ''dQw4w9WgXcQ'')"
  "extractVideoId example_browser (Str ''https://www.youtube.com/watch?v=dQw4w9WgXcQ&t=5'') =
     Return (Some ''dQw4w9WgXcQ'')"
  "extractVideoId example_browser (Str ''https://www.youtube.com/shorts/dQw4w9WgXcQ'') =
     Return (Some ''dQw4w9WgXcQ'')"
  "extractVideoId example_browser (Str ''https://m.youtube.com//embed//dQw4w9WgXcQ/?v=short'') =
     Return (Some ''dQw4w9WgXcQ'')"
  "extractVideoId example_browser (Str ''https://example.org/watch?v=dQw4w9WgXcQ'') = Return None"
  "extractVideoId example_browser (Str ''not a url'') = Return None"
  "extractVideoId example_browser (Str ''dQw4w9WgXc'') = Return None"
  "extractVideoId example_browser (Str ''dQw4w9WgXcQ!'') = Return None"
  "extractChannelId example_browser (Str ''check out UCX6OQ3DkcsbYNE6H8uQQuVA please'') =
     Return (Some ''UCX6OQ3DkcsbYNE6H8uQQuVA'')"
  "extractChannelId example_browser (Str ''UCX6OQ3DkcsbYNE6H8uQQuV'') = Return None"
  "extractPlaylistId example_browser (Str ''PLsomeid123-_'') = Return (Some ''PLsomeid123-_'')"
  "extractPlaylistId example_browser (Str ''a PL! PLx?y'') = Return (Some ''PLx'')"
  by code_simp+

section \<open>What the three extractors do on every text\<close>

lemma search_None: "search here s = None \<longleftrightarrow> (\<forall>i\<le>length s. here (drop i s) = None)"
proof (induction s)
  case Nil
  then show ?case by simp
next
  case (Cons c cs)
  have "(\<forall>i\<le>Suc (length cs). here (drop i (c # cs)) = None) \<longleftrightarrow>
      here (c # cs) = None \<and> (\<forall>i\<le>length cs. here (drop i cs) = None)"
  proof
    assume a: "\<forall>i\<le>Suc (length cs). here (drop i (c # cs)) = None"
    have "here (drop 0 (c # cs)) = None" using a by blast
    moreover have "here (drop i cs) = None" if "i \<le> length cs" for i
      using a [rule_format, of "Suc i"] that by simp
    ultimately show "here (c # cs) = None \<and> (\<forall>i\<le>length cs. here (drop i cs) = None)" by simp
  next
    assume b: "here (c # cs) = None \<and> (\<forall>i\<le>length cs. here (drop i cs) = None)"
    show "\<forall>i\<le>Suc (length cs). here (drop i (c # cs)) = None"
    proof (intro allI impI)
      fix i assume "i \<le> Suc (length cs)"
      then show "here (drop i (c # cs)) = None" using b by (cases i) auto
    qed
  qed
  then show ?case using Cons.IH by (simp split: option.splits)
qed

lemma search_Some: "search here s = Some m \<Longrightarrow> \<exists>i\<le>length s. here (drop i s) = Some m"
proof (induction s)
  case Nil
  then show ?case by simp
next
  case (Cons c cs)
  show ?case
  proof (cases "here (c # cs)")
    case None
    then have "search here cs = Some m" using Cons.prems by simp
    then obtain i where "i \<le> length cs" "here (drop i cs) = Some m" using Cons.IH by blast
    then have "Suc i \<le> length (c # cs) \<and> here (drop (Suc i) (c # cs)) = Some m" by simp
    then show ?thesis by blast
  next
    case (Some a)
    then have "0 \<le> length (c # cs) \<and> here (drop 0 (c # cs)) = Some m" using Cons.prems by simp
    then show ?thesis by blast
  qed
qed

lemma startsWith_two: "startsWith t [a, b] \<longleftrightarrow> take 2 t = [a, b]"
  by (simp add: startsWith_def numeral_2_eq_2)

lemma channel_here_Some:
  "channel_here t = Some m \<longleftrightarrow> spec_ChannelId m \<and> (\<exists>b. t = m @ b)"
proof
  assume h: "channel_here t = Some m"
  then have m: "m = take 24 t" and l: "24 \<le> length t" and uc: "take 2 t = ''UC''"
    and ids: "list_all id_char (take 22 (drop 2 t))"
    by (auto simp: channel_here_def startsWith_two split: if_splits)
  have d: "drop 2 m = take 22 (drop 2 t)" unfolding m by (simp add: drop_take)
  have u: "take 2 m = take 2 t" unfolding m by simp
  have len: "length m = 24" unfolding m using l by simp
  have "t = m @ drop 24 t" unfolding m by simp
  then have sub: "\<exists>b. t = m @ b" by blast
  have "spec_ChannelId m"
    unfolding spec_ChannelId_def d u using len uc ids by (simp add: list_all_id_char)
  then show "spec_ChannelId m \<and> (\<exists>b. t = m @ b)" using sub by simp
next
  assume "spec_ChannelId m \<and> (\<exists>b. t = m @ b)"
  then obtain b where t: "t = m @ b" and l: "length m = 24" and uc: "take 2 m = ''UC''"
    and ids: "list_all spec_id_char (drop 2 m)"
    by (auto simp: spec_ChannelId_def)
  have "take 22 (drop 2 t) = drop 2 m" unfolding t using l by simp
  moreover have "take 2 t = take 2 m" unfolding t using l by simp
  moreover have "take 24 t = m" unfolding t using l by simp
  ultimately show "channel_here t = Some m"
    using l uc ids t by (simp add: channel_here_def startsWith_two list_all_id_char)
qed

lemma playlist_here_Some:
  "playlist_here t = Some m \<Longrightarrow> spec_PlaylistId m \<and> (\<exists>b. t = m @ b)"
proof -
  assume h: "playlist_here t = Some m"
  then have pl: "take 2 t = ''PL''" and run: "takeWhile id_char (drop 2 t) \<noteq> []"
    and m: "m = ''PL'' @ takeWhile id_char (drop 2 t)"
    by (auto simp: playlist_here_def startsWith_two split: if_splits)
  have ids: "list_all id_char (takeWhile id_char (drop 2 t))"
    by (simp add: list_all_iff) (meson set_takeWhileD)
  have "t = take 2 t @ takeWhile id_char (drop 2 t) @ dropWhile id_char (drop 2 t)" by simp
  then have "t = m @ dropWhile id_char (drop 2 t)" unfolding m pl by simp
  then have sub: "\<exists>b. t = m @ b" by blast
  have len: "3 \<le> length m"
    unfolding m using run by (cases "takeWhile id_char (drop 2 t)") auto
  have "take 2 m = ''PL''" and "drop 2 m = takeWhile id_char (drop 2 t)"
    unfolding m by simp_all
  then have "spec_PlaylistId m"
    unfolding spec_PlaylistId_def using len ids by (simp add: list_all_id_char)
  then show ?thesis using sub by simp
qed

lemma playlist_here_None:
  "playlist_here t = None \<Longrightarrow> \<not> (\<exists>m b. t = m @ b \<and> spec_PlaylistId m)"
proof
  assume none: "playlist_here t = None" and "\<exists>m b. t = m @ b \<and> spec_PlaylistId m"
  then obtain m b where t: "t = m @ b" and l: "3 \<le> length m" and pl: "take 2 m = ''PL''"
    and ids: "list_all spec_id_char (drop 2 m)"
    by (auto simp: spec_PlaylistId_def)
  obtain c r where r: "drop 2 m = c # r" using l by (cases "drop 2 m") auto
  then have c: "id_char c" using ids by (simp add: id_char_spec)
  have "take 2 t = ''PL''" unfolding t using l pl by simp
  moreover have "drop 2 t = c # r @ b" unfolding t using l r by simp
  ultimately have "playlist_here t \<noteq> None" using c by (simp add: playlist_here_def startsWith_two)
  then show False using none by simp
qed

lemma search_None_shape:
  assumes found: "\<And>t m. here t = Some m \<Longrightarrow> P m \<and> (\<exists>b. t = m @ b)"
    and there: "\<And>m b. P m \<Longrightarrow> here (m @ b) \<noteq> None"
  shows "search here t = None \<longleftrightarrow> \<not> (\<exists>a m b. t = a @ m @ b \<and> P m)"
proof
  assume none: "search here t = None"
  show "\<not> (\<exists>a m b. t = a @ m @ b \<and> P m)"
  proof
    assume "\<exists>a m b. t = a @ m @ b \<and> P m"
    then obtain a m b where t: "t = a @ m @ b" and m: "P m" by blast
    have "length a \<le> length t" and "drop (length a) t = m @ b" unfolding t by simp_all
    moreover have "\<forall>i\<le>length t. here (drop i t) = None" using none by (simp add: search_None)
    ultimately have "here (m @ b) = None" by fastforce
    then show False using there [OF m] by simp
  qed
next
  assume no: "\<not> (\<exists>a m b. t = a @ m @ b \<and> P m)"
  have "here (drop i t) = None" for i
  proof (rule ccontr)
    assume "here (drop i t) \<noteq> None"
    then obtain m where "here (drop i t) = Some m" by auto
    then obtain b where m: "P m" and d: "drop i t = m @ b" using found by blast
    have "take i t @ drop i t = t" by simp
    then have "t = take i t @ m @ b" unfolding d by simp
    then show False using no m by blast
  qed
  then show "search here t = None" by (simp add: search_None)
qed

lemma search_Some_shape:
  assumes found: "\<And>t m. here t = Some m \<Longrightarrow> P m \<and> (\<exists>b. t = m @ b)"
    and some: "search here t = Some m"
  shows "P m \<and> (\<exists>a b. t = a @ m @ b)"
proof -
  obtain i where "here (drop i t) = Some m" using search_Some [OF some] by blast
  then obtain b where m: "P m" and d: "drop i t = m @ b" using found by blast
  have "take i t @ drop i t = t" by simp
  then have "t = take i t @ m @ b" unfolding d by simp
  then show ?thesis using m by blast
qed

lemma channel_here_there: "spec_ChannelId m \<Longrightarrow> channel_here (m @ b) \<noteq> None"
  using channel_here_Some [of "m @ b" m] by simp

lemma playlist_here_there: "spec_PlaylistId m \<Longrightarrow> playlist_here (m @ b) \<noteq> None"
  using playlist_here_None [of "m @ b"] by blast

lemma extractChannelId_None:
  "extractChannelId env (Str s) = Return None \<longleftrightarrow>
     \<not> (\<exists>a m b. trim s = a @ m @ b \<and> spec_ChannelId m)"
proof -
  have found: "\<And>t m. channel_here t = Some m \<Longrightarrow> spec_ChannelId m \<and> (\<exists>b. t = m @ b)"
    using channel_here_Some by blast
  note search = search_None_shape [where here = channel_here and P = spec_ChannelId,
      OF found channel_here_there]
  have "trim s = [] \<Longrightarrow> \<not> (\<exists>a m b. trim s = a @ m @ b \<and> spec_ChannelId m)"
    by (auto simp: spec_ChannelId_def)
  then show ?thesis
    using search [of "trim s"] by (auto simp: extractChannelId_def trimmed_input_Str)
qed

lemma extractChannelId_Some:
  assumes "extractChannelId env (Str s) = Return (Some m)"
  shows "spec_ChannelId m \<and> (\<exists>a b. trim s = a @ m @ b)"
proof -
  have found: "\<And>t m. channel_here t = Some m \<Longrightarrow> spec_ChannelId m \<and> (\<exists>b. t = m @ b)"
    using channel_here_Some by blast
  have "search channel_here (trim s) = Some m"
    using assms by (auto simp: extractChannelId_def trimmed_input_Str split: if_splits)
  then show ?thesis
    using search_Some_shape [where here = channel_here and P = spec_ChannelId, OF found]
    by blast
qed

lemma extractPlaylistId_None:
  "extractPlaylistId env (Str s) = Return None \<longleftrightarrow>
     \<not> (\<exists>a m b. trim s = a @ m @ b \<and> spec_PlaylistId m)"
proof -
  note search = search_None_shape [where here = playlist_here and P = spec_PlaylistId,
      OF playlist_here_Some playlist_here_there]
  have "trim s = [] \<Longrightarrow> \<not> (\<exists>a m b. trim s = a @ m @ b \<and> spec_PlaylistId m)"
    by (auto simp: spec_PlaylistId_def)
  then show ?thesis
    using search [of "trim s"] by (auto simp: extractPlaylistId_def trimmed_input_Str)
qed

lemma extractPlaylistId_Some:
  assumes "extractPlaylistId env (Str s) = Return (Some m)"
  shows "spec_PlaylistId m \<and> (\<exists>a b. trim s = a @ m @ b)"
proof -
  have "search playlist_here (trim s) = Some m"
    using assms by (auto simp: extractPlaylistId_def trimmed_input_Str split: if_splits)
  then show ?thesis
    using search_Some_shape [where here = playlist_here and P = spec_PlaylistId,
        OF playlist_here_Some]
    by blast
qed

lemma extractVideoId_shape: "extractVideoId env input = Return (Some r) \<Longrightarrow> match_VideoId r"
  unfolding extractVideoId_def
  by (auto simp: Let_def or_empty_def split: completion.splits if_splits option.splits)

lemma extractVideoId_malformed:
  "\<not> spec_VideoId (trim s) \<Longrightarrow> new_URL env (trim s) = None \<Longrightarrow>
     extractVideoId env (Str s) = Return None"
  by (simp add: extractVideoId_def trimmed_input_Str match_VideoId_spec)

lemma extractors_return:
  "\<not> truthy input \<or> (\<exists>s. input = Str s) \<Longrightarrow>
     (\<exists>r. extractVideoId env input = Return r) \<and>
     (\<exists>r. extractChannelId env input = Return r) \<and>
     (\<exists>r. extractPlaylistId env input = Return r)"
proof -
  assume "\<not> truthy input \<or> (\<exists>s. input = Str s)"
  then obtain t where "trimmed_input env input = Return t"
    using trimmed_input_Str trimmed_input_falsy by blast
  then show ?thesis
    by (simp add: extractVideoId_def extractChannelId_def extractPlaylistId_def Let_def
        split: option.splits)
qed

lemma extractors_falsy:
  "\<not> truthy input \<Longrightarrow>
     extractVideoId env input = Return None \<and> extractChannelId env input = Return None \<and>
     extractPlaylistId env input = Return None"
  by (simp add: extractVideoId_def extractChannelId_def extractPlaylistId_def
      trimmed_input_falsy trim_Nil)

text \<open>
  C3 as stated does not hold: it speaks of every input value, and a truthy value that
  is not a string, such as the number 42, has no method \<^verbatim>\<open>trim\<close>; the call throws.
\<close>

theorem extractVideoId_number_throws:
  "extractVideoId example_browser (Number 42) =
     Throw (TypeError ''(input || \"\").trim is not a function'')"
  by (simp add: extractVideoId_def trimmed_input_def or_else_def example_browser_def)

text \<open>
  C3, amended in its inputs only. For every input that is a string or a falsy value
  (\<^verbatim>\<open>null\<close>, \<^verbatim>\<open>undefined\<close>, the empty string, \<^verbatim>\<open>false\<close>, 0), each of the three
  extractors returns and does not throw. Malformed input gives \<^verbatim>\<open>null\<close>: a falsy input
  from all three; a text that is no VideoId and does not parse as a URL from
  \<^verbatim>\<open>extractVideoId\<close>; a text that, trimmed, contains no ChannelId from
  \<^verbatim>\<open>extractChannelId\<close>, and only such a text; a text that contains no PlaylistId from
  \<^verbatim>\<open>extractPlaylistId\<close>, and only such a text. What is returned otherwise is an id of
  the kind, and for a channel or a playlist a part of the trimmed text. The extractors
  are deterministic and free of side effects: called on a page, each gives a result that
  is the same on every page, a function of the platform and the input, and leaves the
  page as it was.
\<close>

theorem extractors_return_on_text:
  assumes domain: "\<not> truthy input \<or> (\<exists>s. input = Str s)"
  shows "(\<exists>r. extractVideoId env input = Return r) \<and>
         (\<exists>r. extractChannelId env input = Return r) \<and>
         (\<exists>r. extractPlaylistId env input = Return r) \<and>
         (\<not> truthy input \<longrightarrow>
            extractVideoId env input = Return None \<and>
            extractChannelId env input = Return None \<and>
            extractPlaylistId env input = Return None) \<and>
         (\<forall>s. input = Str s \<longrightarrow>
            (\<not> spec_VideoId (trim s) \<and> new_URL env (trim s) = None \<longrightarrow>
               extractVideoId env input = Return None) \<and>
            (\<forall>m. extractVideoId env input = Return (Some m) \<longrightarrow> spec_VideoId m) \<and>
            (extractChannelId env input = Return None \<longleftrightarrow>
               \<not> (\<exists>a m b. trim s = a @ m @ b \<and> spec_ChannelId m)) \<and>
            (\<forall>m. extractChannelId env input = Return (Some m) \<longrightarrow>
               spec_ChannelId m \<and> (\<exists>a b. trim s = a @ m @ b)) \<and>
            (extractPlaylistId env input = Return None \<longleftrightarrow>
               \<not> (\<exists>a m b. trim s = a @ m @ b \<and> spec_PlaylistId m)) \<and>
            (\<forall>m. extractPlaylistId env input = Return (Some m) \<longrightarrow>
               spec_PlaylistId m \<and> (\<exists>a b. trim s = a @ m @ b))) \<and>
         (\<forall>st st'.
            snd (extractVideoId_call env input st) = st \<and>
            fst (extractVideoId_call env input st) = fst (extractVideoId_call env input st') \<and>
            fst (extractVideoId_call env input st) = extractVideoId env input \<and>
            snd (extractChannelId_call env input st) = st \<and>
            fst (extractChannelId_call env input st) = fst (extractChannelId_call env input st') \<and>
            fst (extractChannelId_call env input st) = extractChannelId env input \<and>
            snd (extractPlaylistId_call env input st) = st \<and>
            fst (extractPlaylistId_call env input st) = fst (extractPlaylistId_call env input st') \<and>
            fst (extractPlaylistId_call env input st) = extractPlaylistId env input)"
proof -
  have returns: "(\<exists>r. extractVideoId env input = Return r) \<and>
         (\<exists>r. extractChannelId env input = Return r) \<and>
         (\<exists>r. extractPlaylistId env input = Return r)"
    by (rule extractors_return [OF domain])
  have falsy: "\<not> truthy input \<longrightarrow>
            extractVideoId env input = Return None \<and>
            extractChannelId env input = Return None \<and>
            extractPlaylistId env input = Return None"
    using extractors_falsy by blast
  have written: "\<forall>s. input = Str s \<longrightarrow>
            (\<not> spec_VideoId (trim s) \<and> new_URL env (trim s) = None \<longrightarrow>
               extractVideoId env input = Return None) \<and>
            (\<forall>m. extractVideoId env input = Return (Some m) \<longrightarrow> spec_VideoId m) \<and>
            (extractChannelId env input = Return None \<longleftrightarrow>
               \<not> (\<exists>a m b. trim s = a @ m @ b \<and> spec_ChannelId m)) \<and>
            (\<forall>m. extractChannelId env input = Return (Some m) \<longrightarrow>
               spec_ChannelId m \<and> (\<exists>a b. trim s = a @ m @ b)) \<and>
            (extractPlaylistId env input = Return None \<longleftrightarrow>
               \<not> (\<exists>a m b. trim s = a @ m @ b \<and> spec_PlaylistId m)) \<and>
            (\<forall>m. extractPlaylistId env input = Return (Some m) \<longrightarrow>
               spec_PlaylistId m \<and> (\<exists>a b. trim s = a @ m @ b))"
  proof (intro allI impI)
    fix s assume s: "input = Str s"
    have "\<not> spec_VideoId (trim s) \<and> new_URL env (trim s) = None \<longrightarrow>
               extractVideoId env (Str s) = Return None"
      using extractVideoId_malformed by blast
    moreover have "\<forall>m. extractVideoId env (Str s) = Return (Some m) \<longrightarrow> spec_VideoId m"
      using extractVideoId_shape match_VideoId_spec by blast
    moreover have "\<forall>m. extractChannelId env (Str s) = Return (Some m) \<longrightarrow>
               spec_ChannelId m \<and> (\<exists>a b. trim s = a @ m @ b)"
      using extractChannelId_Some by blast
    moreover have "\<forall>m. extractPlaylistId env (Str s) = Return (Some m) \<longrightarrow>
               spec_PlaylistId m \<and> (\<exists>a b. trim s = a @ m @ b)"
      using extractPlaylistId_Some by blast
    ultimately show "(\<not> spec_VideoId (trim s) \<and> new_URL env (trim s) = None \<longrightarrow>
               extractVideoId env input = Return None) \<and>
            (\<forall>m. extractVideoId env input = Return (Some m) \<longrightarrow> spec_VideoId m) \<and>
            (extractChannelId env input = Return None \<longleftrightarrow>
               \<not> (\<exists>a m b. trim s = a @ m @ b \<and> spec_ChannelId m)) \<and>
            (\<forall>m. extractChannelId env input = Return (Some m) \<longrightarrow>
               spec_ChannelId m \<and> (\<exists>a b. trim s = a @ m @ b)) \<and>
            (extractPlaylistId env input = Return None \<longleftrightarrow>
               \<not> (\<exists>a m b. trim s = a @ m @ b \<and> spec_PlaylistId m)) \<and>
            (\<forall>m. extractPlaylistId env input = Return (Some m) \<longrightarrow>
               spec_PlaylistId m \<and> (\<exists>a b. trim s = a @ m @ b))"
      unfolding s using extractChannelId_None [of env s] extractPlaylistId_None [of env s]
      by simp
  qed
  have pure: "\<forall>st st'.
            snd (extractVideoId_call env input st) = st \<and>
            fst (extractVideoId_call env input st) = fst (extractVideoId_call env input st') \<and>
            fst (extractVideoId_call env input st) = extractVideoId env input \<and>
            snd (extractChannelId_call env input st) = st \<and>
            fst (extractChannelId_call env input st) = fst (extractChannelId_call env input st') \<and>
            fst (extractChannelId_call env input st) = extractChannelId env input \<and>
            snd (extractPlaylistId_call env input st) = st \<and>
            fst (extractPlaylistId_call env input st) = fst (extractPlaylistId_call env input st') \<and>
            fst (extractPlaylistId_call env input st) = extractPlaylistId env input"
    by (simp add: extractVideoId_call_def extractChannelId_call_def extractPlaylistId_call_def)
  show ?thesis using returns falsy written pure by blast
qed

theorem extractors_return_on_text_witness:
  "extractVideoId example_browser (Str ''not a url'') = Return None \<and>
   extractChannelId example_browser (Str ''not a url'') = Return None \<and>
   extractPlaylistId example_browser (Str ''not a url'') = Return None \<and>
   snd (extractVideoId_call example_browser (Str ''not a url'') example_page) = example_page \<and>
   extractVideoId example_browser Null = Return None \<and>
   extractChannelId example_browser Null = Return None \<and>
   extractPlaylistId example_browser Null = Return None"
proof -
  have tr: "trim ''not a url'' = ''not a url''" by code_simp
  have nomatch: "\<not> spec_VideoId (trim ''not a url'')" by (simp add: tr spec_VideoId_def)
  have unparsed: "new_URL example_browser (trim ''not a url'') = None"
    by (simp add: tr example_browser_def example_URL_def)
  have channel: "extractChannelId example_browser (Str ''not a url'') = Return None"
    and playlist: "extractPlaylistId example_browser (Str ''not a url'') = Return None"
    by code_simp+
  have null: "\<not> truthy Null" by simp
  show ?thesis
    using extractors_return_on_text [of "Str ''not a url''" example_browser] nomatch unparsed
      extractors_return_on_text [of Null example_browser] null channel playlist
    by simp
qed

section \<open>Remote data: what \<^verbatim>\<open>fetchJson\<close> returns and throws\<close>







lemma fetchJson_examples:
  "fetchJson example_browser (Return \<lparr>status = 500, body = []\<rparr>) = Throw (Error ''HTTP 500'')"
  "fetchJson example_browser (Return \<lparr>status = 502, body = ''{\"error\":\"Upstream feed error\"}''\<rparr>) =
     Throw (Error ''Upstream feed error'')"
  "fetchJson example_browser (Return \<lparr>status = 500, body = ''{\"error\":\"\"}''\<rparr>) =
     Throw (Error ''HTTP 500'')"
  "fetchJson example_browser (Return \<lparr>status = 404, body = ''{}''\<rparr>) = Throw (Error ''HTTP 404'')"
  "fetchJson example_browser (Return \<lparr>status = 200, body = ''{}''\<rparr>) = Return (Object [])"
  by code_simp+

text \<open>
  C9. For a response with a successful status whose body is not JSON, \<^verbatim>\<open>fetchJson\<close> does
  not throw: it returns the synthesized payload \<^verbatim>\<open>{error: <body>}\<close>, or
  \<^verbatim>\<open>{error: "HTTP <status>"}\<close> for an empty body, as its value.
\<close>

theorem fetchJson_success_not_json:
  "ok res \<Longrightarrow> JSON_parse env (body res) = None \<Longrightarrow>
     fetchJson env (Return res) =
       Return (Object [(''error'', Str (if body res = [] then ''HTTP '' @ digits (status res)
                                        else body res))])"
  by (simp add: fetchJson_def payload_def or_else_def HTTP_status_def)

theorem fetchJson_success_not_json_witness:
  "ok \<lparr>status = 200, body = ''<html>''\<rparr> \<and>
   JSON_parse example_browser (body \<lparr>status = 200, body = ''<html>''\<rparr>) = None \<and>
   fetchJson example_browser (Return \<lparr>status = 200, body = ''<html>''\<rparr>) =
     Return (Object [(''error'', Str ''<html>'')]) \<and>
   ok \<lparr>status = 204, body = []\<rparr> \<and>
   fetchJson example_browser (Return \<lparr>status = 204, body = []\<rparr>) =
     Return (Object [(''error'', Str ''HTTP 204'')])"
proof -
  have a: "ok \<lparr>status = 200, body = ''<html>''\<rparr>" and b: "ok \<lparr>status = 204, body = []\<rparr>"
    by (simp_all add: ok_def)
  have c: "JSON_parse example_browser (body \<lparr>status = 200, body = ''<html>''\<rparr>) = None"
    and d: "JSON_parse example_browser (body \<lparr>status = 204, body = []\<rparr>) = None"
    by (simp_all add: example_browser_def example_JSON_def)
  have e: "digits 204 = ''204''" by code_simp
  show ?thesis
    using fetchJson_success_not_json [OF a c] fetchJson_success_not_json [OF b d] a b c e
    by simp
qed

section \<open>Query state: what \<^verbatim>\<open>setQuery\<close> changes\<close>

lemma delete_other: "\<not> P k \<Longrightarrow>
    filter (\<lambda>p. P (fst p)) (searchParams_delete ps k) = filter (\<lambda>p. P (fst p)) ps"
  unfolding searchParams_delete_def by (induction ps) auto

lemma set_other: "\<not> P k \<Longrightarrow>
    filter (\<lambda>p. P (fst p)) (searchParams_set ps k v) = filter (\<lambda>p. P (fst p)) ps"
  by (induction ps) (auto simp: delete_other)

lemma delete_same: "filter (\<lambda>p. fst p = k) (searchParams_delete ps k) = []"
  unfolding searchParams_delete_def by (induction ps) auto

lemma set_same: "filter (\<lambda>p. fst p = k) (searchParams_set ps k v) = [(k, v)]"
  by (induction ps) (auto simp: delete_same)

lemma step_other: "\<not> P (fst u) \<Longrightarrow>
    filter (\<lambda>p. P (fst p)) (query_step u ps) = filter (\<lambda>p. P (fst p)) ps"
  by (cases u) (simp add: query_step_def delete_other set_other)

lemma step_same:
  "filter (\<lambda>p. fst p = k) (query_step (k, v) ps) =
     (if v = Null \<or> v = Undefined \<or> v = Str [] then [] else [(k, ToString v)])"
  by (simp add: query_step_def delete_same set_same)

lemma fold_other: "(\<And>u. u \<in> set us \<Longrightarrow> \<not> P (fst u)) \<Longrightarrow>
    filter (\<lambda>p. P (fst p)) (fold query_step us ps) = filter (\<lambda>p. P (fst p)) ps"
  by (induction us arbitrary: ps) (simp_all add: step_other)

lemma fold_same: "distinct (map fst us) \<Longrightarrow> (k, v) \<in> set us \<Longrightarrow>
    filter (\<lambda>p. fst p = k) (fold query_step us ps) =
      (if v = Null \<or> v = Undefined \<or> v = Str [] then [] else [(k, ToString v)])"
proof (induction us arbitrary: ps)
  case Nil
  then show ?case by simp
next
  case (Cons u us)
  show ?case
  proof (cases "u = (k, v)")
    case True
    have "\<And>w. w \<in> set us \<Longrightarrow> \<not> (fst w = k)" using Cons.prems(1) True by force
    then have "filter (\<lambda>p. fst p = k) (fold query_step us (query_step u ps)) =
        filter (\<lambda>p. fst p = k) (query_step u ps)"
      by (rule fold_other [where P = "\<lambda>n. n = k"])
    then show ?thesis using True by (simp add: step_same)
  next
    case False
    then have "(k, v) \<in> set us" using Cons.prems(2) by simp
    moreover have "distinct (map fst us)" using Cons.prems(1) by simp
    ultimately show ?thesis using Cons.IH by simp
  qed
qed

lemma setQuery_location: "location (setQuery us st) = fold query_step us (location st)"
  by (simp add: setQuery_def)

lemma absent_iff: "k \<notin> fst ` set ps \<longleftrightarrow> filter (\<lambda>p. fst p = k) ps = []"
  by (induction ps) auto

lemma get_single: "filter (\<lambda>p. fst p = k) ps = [(k, v)] \<Longrightarrow> searchParams_get ps k = Some v"
  unfolding searchParams_get_def by (induction ps) (auto split: if_splits)

lemma get_filter: "filter (\<lambda>p. fst p = k) ps = filter (\<lambda>p. fst p = k) qs \<Longrightarrow>
    searchParams_get ps k = searchParams_get qs k"
proof -
  have "map_of ps k = map_of (filter (\<lambda>p. fst p = k) ps) k" for ps :: "(string \<times> string) list"
    by (induction ps) auto
  then show "filter (\<lambda>p. fst p = k) ps = filter (\<lambda>p. fst p = k) qs \<Longrightarrow>
    searchParams_get ps k = searchParams_get qs k"
    unfolding searchParams_get_def by metis
qed

lemma empty_value: "(k, []) \<in> set ps \<Longrightarrow> (k, []) \<in> set (filter (\<lambda>p. fst p = k) ps)"
  by simp

text \<open>The conversion to a string, on values of every kind.\<close>

lemma ToString_examples:
  "ToString (Str ''UC1'') = ''UC1''"
  "ToString (Number 42) = ''42''"
  "ToString (Number (- 7)) = ''-7''"
  "ToString (Number 0) = ''0''"
  "ToString (Bool True) = ''true''"
  "ToString (Bool False) = ''false''"
  "ToString Null = ''null''"
  "ToString Undefined = ''undefined''"
  "ToString (Array []) = []"
  "ToString (Array [Str ''a'', Null, Number 10, Array [Bool True, Undefined], Object []]) =
     ''a,,10,true,,[object Object]''"
  "ToString (Object [(''videoId'', Str ''x'')]) = ''[object Object]''"
  by code_simp+

text \<open>
  C7 as stated does not hold: \<^verbatim>\<open>setQuery\<close> tests the value, not its text, and the empty
  array is none of \<^verbatim>\<open>null\<close>, \<^verbatim>\<open>undefined\<close> and the empty string, while its text is the
  empty string: \<^verbatim>\<open>setQuery({v: []})\<close> writes \<^verbatim>\<open>v\<close> with an empty value. A click on an
  entry of the results list passes the \<^verbatim>\<open>videoId\<close> of a feed item, whatever it is.
\<close>

theorem setQuery_writes_empty_value:
  "(''v'', []) \<in> set (location (setQuery [(''v'', Array [])] example_page))"
  by (simp add: setQuery_def query_step_def example_page_def)

text \<open>
  C7, amended. The update mapping is the list of its entries, their names distinct and
  their values with a string conversion (\<open>exact_text\<close>). After \<^verbatim>\<open>setQuery\<close>, a parameter
  whose new value is \<^verbatim>\<open>null\<close>, \<^verbatim>\<open>undefined\<close> or the empty string is absent from the
  address; a parameter whose new value is another string is there exactly once, with
  that string, so that no string is ever written as an empty value; a parameter whose
  new value is no string is there exactly once with the conversion of the value, which
  for the empty array is the empty string; the parameters not named keep their pairs, in
  their order; and nothing but the address changes in the page. The closed example is
  the one of the specification: \<^verbatim>\<open>{channel: "UC1", playlist: null}\<close> on an address that
  holds \<^verbatim>\<open>playlist=PL1\<close> and a \<^verbatim>\<open>v\<close>.
\<close>

theorem setQuery_removes_and_sets:
  assumes names: "distinct (map fst updates)"
    and texts: "list_all (\<lambda>u. exact_text (snd u)) updates"
  shows "(\<forall>k v. (k, v) \<in> set updates \<and> (v = Null \<or> v = Undefined \<or> v = Str []) \<longrightarrow>
            k \<notin> fst ` set (location (setQuery updates st)) \<and>
            searchParams_get (location (setQuery updates st)) k = None) \<and>
         (\<forall>k s. (k, Str s) \<in> set updates \<and> s \<noteq> [] \<longrightarrow>
            filter (\<lambda>p. fst p = k) (location (setQuery updates st)) = [(k, s)] \<and>
            searchParams_get (location (setQuery updates st)) k = Some s) \<and>
         (\<forall>k s. (k, Str s) \<in> set updates \<longrightarrow> (k, []) \<notin> set (location (setQuery updates st))) \<and>
         (\<forall>k v. (k, v) \<in> set updates \<and> v \<noteq> Null \<and> v \<noteq> Undefined \<and> (\<forall>s. v \<noteq> Str s) \<longrightarrow>
            filter (\<lambda>p. fst p = k) (location (setQuery updates st)) = [(k, ToString v)] \<and>
            searchParams_get (location (setQuery updates st)) k = Some (ToString v)) \<and>
         (\<forall>k. (k, Array []) \<in> set updates \<longrightarrow>
            filter (\<lambda>p. fst p = k) (location (setQuery updates st)) = [(k, [])]) \<and>
         filter (\<lambda>p. fst p \<notin> fst ` set updates) (location (setQuery updates st)) =
           filter (\<lambda>p. fst p \<notin> fst ` set updates) (location st) \<and>
         (\<forall>k. k \<notin> fst ` set updates \<longrightarrow>
            searchParams_get (location (setQuery updates st)) k = searchParams_get (location st) k) \<and>
         setQuery updates st = st\<lparr>location := location (setQuery updates st)\<rparr>"
proof -
  let ?after = "location (setQuery updates st)"
  have same: "filter (\<lambda>p. fst p = k) ?after =
      (if v = Null \<or> v = Undefined \<or> v = Str [] then [] else [(k, ToString v)])"
    if "(k, v) \<in> set updates" for k v
    unfolding setQuery_location by (rule fold_same [OF names that])
  have none: "filter (\<lambda>p. fst p = k) ps = [] \<Longrightarrow> searchParams_get ps k = None" for ps k
    unfolding searchParams_get_def by (induction ps) (auto split: if_splits)
  have removed: "\<forall>k v. (k, v) \<in> set updates \<and> (v = Null \<or> v = Undefined \<or> v = Str []) \<longrightarrow>
            k \<notin> fst ` set ?after \<and> searchParams_get ?after k = None"
  proof (intro allI impI)
    fix k v assume h: "(k, v) \<in> set updates \<and> (v = Null \<or> v = Undefined \<or> v = Str [])"
    then have mem: "(k, v) \<in> set updates" and gone: "v = Null \<or> v = Undefined \<or> v = Str []"
      by simp_all
    have f: "filter (\<lambda>p. fst p = k) ?after = []"
      unfolding same [OF mem] using gone by (simp only: if_True)
    have a: "k \<notin> fst ` set ?after" unfolding absent_iff by (rule f)
    have b: "searchParams_get ?after k = None" by (rule none [OF f])
    from a b show "k \<notin> fst ` set ?after \<and> searchParams_get ?after k = None"
      by (rule conjI)
  qed
  have strings: "\<forall>k s. (k, Str s) \<in> set updates \<and> s \<noteq> [] \<longrightarrow>
            filter (\<lambda>p. fst p = k) ?after = [(k, s)] \<and> searchParams_get ?after k = Some s"
  proof (intro allI impI)
    fix k s assume h: "(k, Str s) \<in> set updates \<and> s \<noteq> []"
    then have mem: "(k, Str s) \<in> set updates" and ne: "s \<noteq> []" by simp_all
    have f: "filter (\<lambda>p. fst p = k) ?after = [(k, s)]"
      unfolding same [OF mem] using ne by simp
    from f get_single [OF f]
    show "filter (\<lambda>p. fst p = k) ?after = [(k, s)] \<and> searchParams_get ?after k = Some s"
      by (rule conjI)
  qed
  have never: "\<forall>k s. (k, Str s) \<in> set updates \<longrightarrow> (k, []) \<notin> set ?after"
  proof (intro allI impI notI)
    fix k s assume u: "(k, Str s) \<in> set updates" and e: "(k, []) \<in> set ?after"
    have "(k, []) \<in> set (if Str s = Null \<or> Str s = Undefined \<or> Str s = Str [] then []
        else [(k, ToString (Str s))])"
      using empty_value [OF e] unfolding same [OF u] .
    then show False by (cases "s = []") simp_all
  qed
  have converted: "\<forall>k v. (k, v) \<in> set updates \<and> v \<noteq> Null \<and> v \<noteq> Undefined \<and> (\<forall>s. v \<noteq> Str s) \<longrightarrow>
            filter (\<lambda>p. fst p = k) ?after = [(k, ToString v)] \<and>
            searchParams_get ?after k = Some (ToString v)"
  proof (intro allI impI)
    fix k v
    assume h: "(k, v) \<in> set updates \<and> v \<noteq> Null \<and> v \<noteq> Undefined \<and> (\<forall>s. v \<noteq> Str s)"
    then have mem: "(k, v) \<in> set updates"
      and kept: "\<not> (v = Null \<or> v = Undefined \<or> v = Str [])" by simp_all
    have f: "filter (\<lambda>p. fst p = k) ?after = [(k, ToString v)]"
      unfolding same [OF mem] using kept by (simp only: if_False)
    from f get_single [OF f]
    show "filter (\<lambda>p. fst p = k) ?after = [(k, ToString v)] \<and>
            searchParams_get ?after k = Some (ToString v)"
      by (rule conjI)
  qed
  have arrays: "\<forall>k. (k, Array []) \<in> set updates \<longrightarrow>
            filter (\<lambda>p. fst p = k) ?after = [(k, [])]"
  proof (intro allI impI)
    fix k assume "(k, Array []) \<in> set updates"
    from same [OF this] show "filter (\<lambda>p. fst p = k) ?after = [(k, [])]" by simp
  qed
  have others: "filter (\<lambda>p. fst p \<notin> fst ` set updates) ?after =
           filter (\<lambda>p. fst p \<notin> fst ` set updates) (location st)"
    unfolding setQuery_location by (rule fold_other) auto
  have other: "\<forall>k. k \<notin> fst ` set updates \<longrightarrow>
      searchParams_get ?after k = searchParams_get (location st) k"
  proof (intro allI impI)
    fix k assume k: "k \<notin> fst ` set updates"
    have "\<And>u. u \<in> set updates \<Longrightarrow> \<not> (fst u = k)" using k by auto
    then have "filter (\<lambda>p. fst p = k) ?after = filter (\<lambda>p. fst p = k) (location st)"
      unfolding setQuery_location by (rule fold_other [where P = "\<lambda>n. n = k"])
    then show "searchParams_get ?after k = searchParams_get (location st) k"
      by (rule get_filter)
  qed
  have rest: "setQuery updates st = st\<lparr>location := ?after\<rparr>"
    by (simp add: setQuery_def)
  show ?thesis by (intro conjI removed strings never converted arrays others other rest)
qed

theorem setQuery_removes_and_sets_witness:
  "distinct (map fst [(''channel'', Str ''UC1''), (''playlist'', Null)]) \<and>
   list_all (\<lambda>u. exact_text (snd u)) [(''channel'', Str ''UC1''), (''playlist'', Null)] \<and>
   location example_page = [(''v'', ''dQw4w9WgXcQ''), (''playlist'', ''PL1'')] \<and>
   ''playlist'' \<notin> fst ` set (location (setQuery [(''channel'', Str ''UC1''), (''playlist'', Null)] example_page)) \<and>
   filter (\<lambda>p. fst p = ''channel'')
     (location (setQuery [(''channel'', Str ''UC1''), (''playlist'', Null)] example_page)) =
     [(''channel'', ''UC1'')] \<and>
   searchParams_get (location (setQuery [(''channel'', Str ''UC1''), (''playlist'', Null)] example_page))
     ''channel'' = Some ''UC1'' \<and>
   searchParams_get (location (setQuery [(''channel'', Str ''UC1''), (''playlist'', Null)] example_page))
     ''v'' = Some ''dQw4w9WgXcQ''"
proof -
  let ?updates = "[(''channel'', Str ''UC1''), (''playlist'', Null)]"
  have names: "distinct (map fst ?updates)" by simp
  have texts: "list_all (\<lambda>u. exact_text (snd u)) ?updates" by simp
  have before: "location example_page = [(''v'', ''dQw4w9WgXcQ''), (''playlist'', ''PL1'')]"
    by (simp add: example_page_def)
  have v: "searchParams_get (location example_page) ''v'' = Some ''dQw4w9WgXcQ''"
    by (simp add: before searchParams_get_def)
  note all = setQuery_removes_and_sets [OF names texts, of example_page]
  have removed: "''playlist'' \<notin> fst ` set (location (setQuery ?updates example_page))"
    using all [THEN conjunct1, rule_format, of "''playlist''" Null] by simp
  have "filter (\<lambda>p. fst p = ''channel'') (location (setQuery ?updates example_page)) =
         [(''channel'', ''UC1'')] \<and>
        searchParams_get (location (setQuery ?updates example_page)) ''channel'' = Some ''UC1''"
    using all [THEN conjunct2, THEN conjunct1, rule_format, of "''channel''" "''UC1''"] by simp
  moreover have "searchParams_get (location (setQuery ?updates example_page)) ''v'' =
         searchParams_get (location example_page) ''v''"
    using all [THEN conjunct2, THEN conjunct2, THEN conjunct2, THEN conjunct2, THEN conjunct2,
        THEN conjunct2, THEN conjunct1, rule_format, of "''v''"] by simp
  ultimately show ?thesis using removed names texts before v by simp
qed

lemma setQuery_example:
  "location (setQuery [(''channel'', Str ''UC1''), (''playlist'', Null)] example_page) =
     [(''v'', ''dQw4w9WgXcQ''), (''channel'', ''UC1'')]"
  by (simp add: setQuery_def query_step_def example_page_def searchParams_delete_def)

lemma setQuery_number_example:
  "location (setQuery [(''v'', Number 42), (''playlist'', Str [])] example_page) = [(''v'', ''42'')]"
  by code_simp

section \<open>Rendering a feed\<close>

text \<open>What \<^verbatim>\<open>renderFeed\<close> writes is a function of the feed; of the page before it keeps the rest.\<close>

lemma renderFeed_replaces:
  "renderFeed env feed st =
     (fst (if length (feed_items feed) = 0 then (Return (), [no_items])
           else append_items env (feed_items feed) []),
      st\<lparr>resultsTitle := ToString (or_else (get feed ''title'') (Str ''Feed'')),
         resultsSub := ToString (or_else (get feed ''feedUrl'') (Str [])),
         resultsList := snd (if length (feed_items feed) = 0 then (Return (), [no_items])
                             else append_items env (feed_items feed) [])\<rparr>)"
  by (simp add: renderFeed_def Let_def split: prod.splits)

text \<open>
  C8. \<^verbatim>\<open>renderFeed\<close> is idempotent: rendering a feed on the page a first rendering of
  the same feed has left gives the same page, and the same completion, as the first
  rendering. The title, the subtitle and the list it leaves do not depend on the page
  before (each rendering replaces them: nothing accumulates), and it changes nothing else.
\<close>

theorem renderFeed_idempotent:
  "renderFeed env feed (snd (renderFeed env feed st)) = renderFeed env feed st \<and>
   resultsTitle (snd (renderFeed env feed st)) = resultsTitle (snd (renderFeed env feed st')) \<and>
   resultsSub (snd (renderFeed env feed st)) = resultsSub (snd (renderFeed env feed st')) \<and>
   resultsList (snd (renderFeed env feed st)) = resultsList (snd (renderFeed env feed st')) \<and>
   snd (renderFeed env feed st) =
     st\<lparr>resultsTitle := resultsTitle (snd (renderFeed env feed st)),
        resultsSub := resultsSub (snd (renderFeed env feed st)),
        resultsList := resultsList (snd (renderFeed env feed st))\<rparr>"
  by (simp add: renderFeed_replaces)

theorem renderFeed_idempotent_witness:
  "renderFeed example_browser example_feed
     (snd (renderFeed example_browser example_feed example_page)) =
     renderFeed example_browser example_feed example_page \<and>
   fst (renderFeed example_browser example_feed example_page) = Return () \<and>
   length (resultsList (snd (renderFeed example_browser example_feed
     (snd (renderFeed example_browser example_feed example_page))))) = 2"
proof -
  have once: "fst (renderFeed example_browser example_feed example_page) = Return () \<and>
      length (resultsList (snd (renderFeed example_browser example_feed example_page))) = 2"
    by (simp add: renderFeed_replaces feed_items_def example_feed_def)
  show ?thesis
    using renderFeed_idempotent [of example_browser example_feed example_page example_page] once
    by simp
qed





section \<open>Loading a feed, playing a video\<close>











section \<open>The button for a channel, and the metadata of the specification's examples\<close>

text \<open>
  The listener of the channel button calls \<^verbatim>\<open>setQuery\<close> with the channel it found and
  \<^verbatim>\<open>playlist: null\<close>: the address then names the channel, holds no playlist, and keeps
  its \<^verbatim>\<open>v\<close>.
\<close>

lemma channel_here_shape: "channel_here t = Some m \<Longrightarrow> length m = 24"
  by (auto simp: channel_here_def split: if_splits)

lemma channelBtn_click_query:
  assumes "extractChannelId env (Str (channelInput st)) = Return (Some ident)"
  shows "\<exists>st1 request.
           channelBtn_click env st = (st1, Some request) \<and>
           searchParams_get (location st1) ''channel'' = Some ident \<and>
           ''playlist'' \<notin> fst ` set (location st1) \<and>
           searchParams_get (location st1) ''v'' = searchParams_get (location st) ''v''"
proof -
  let ?updates = "[(''channel'', Str ident), (''playlist'', Null)]"
  have "search channel_here (trim (channelInput st)) = Some ident"
    using assms by (auto simp: extractChannelId_def trimmed_input_Str split: if_splits)
  then obtain i where "channel_here (drop i (trim (channelInput st))) = Some ident"
    using search_Some by blast
  then have ne: "ident \<noteq> []" using channel_here_shape by fastforce
  have names: "distinct (map fst ?updates)" by simp
  have c: "filter (\<lambda>p. fst p = ''channel'') (location (setQuery ?updates st)) = [(''channel'', ident)]"
    unfolding setQuery_location using fold_same [OF names, of "''channel''" "Str ident"] ne by simp
  have p: "filter (\<lambda>p. fst p = ''playlist'') (location (setQuery ?updates st)) = []"
    unfolding setQuery_location using fold_same [OF names, of "''playlist''" Null] by simp
  have v: "filter (\<lambda>p. fst p = ''v'') (location (setQuery ?updates st)) =
      filter (\<lambda>p. fst p = ''v'') (location st)"
    unfolding setQuery_location by (rule fold_other [where P = "\<lambda>n. n = ''v''"]) auto
  show ?thesis
    using assms get_single [OF c] p get_filter [OF v]
    by (simp add: channelBtn_click_def extractChannelId_call_def loadFeed_def setStatus_def
        absent_iff del: filter_False)
qed

lemma renderMeta_examples:
  "metaTitle (renderMeta example_browser (Object [(''videoId'', Str ''abc'')]) example_page) = ''Video: abc''"
  "metaByline (renderMeta example_browser (Object [(''videoId'', Str ''abc'')]) example_page) = []"
  "metaActions (renderMeta example_browser (Object []) example_page) = []"
  by (simp_all add: renderMeta_def or_else_def)

end
